theory Spec2Isabelle
  imports Main "HOL-Library.Word" "HOL-Library.Sublist"
begin

section \<open>Bytes, errors and decimal numbers\<close>

text \<open>
  Go strings and byte slices are sequences of bytes; \<open>char\<close> is a byte, so both are
  modelled as \<open>string\<close>. A connection is modelled by the bytes it delivers before it
  reports end of stream; other transport failures (reset, deadline) are not part of the
  byte-level model. Go's \<open>int\<close> is taken to be 64 bits wide, as on every platform the
  program is built for.
\<close>

abbreviation CR :: char where "CR \<equiv> CHR 0x0D"
abbreviation LF :: char where "LF \<equiv> CHR 0x0A"

definition max_int :: int where
  "max_int = 2 ^ 63 - 1"

definition min_int :: int where
  "min_int = - (2 ^ 63)"

text \<open>
  The runtime's \<open>maxAlloc\<close>, the largest number of bytes \<open>make\<close> accepts for a slice on
  a 64-bit platform with 48 bits of heap address (linux/amd64, arm64): \<open>makeslice\<close>
  panics with \<open>len out of range\<close> when the length is negative or when the length times
  the element size is more. Below that bound the allocation is taken to succeed: how
  much memory the machine has left is not part of the model.
\<close>

definition maxAlloc :: int where
  "maxAlloc = 2 ^ 48"

text \<open>One constructor per place where the codec returns or raises an error.\<close>

datatype error =
    EOF
  | ErrUnexpectedEOF
  | UnknownRESPType char
  | InvalidInteger string
  | InvalidBulkStringSize string
  | InvalidArrayCount string
  | InvalidLineTerminator
  | InvalidBulkStringTerminator
  | PanicMakeSliceLenOutOfRange

definition isDigit :: "char \<Rightarrow> bool" where
  "isDigit c = (48 \<le> (of_char c :: nat) \<and> (of_char c :: nat) \<le> 57)"

definition digitChar :: "nat \<Rightarrow> char" where
  "digitChar d = char_of (48 + d)"

text \<open>\<open>strconv.ParseUint(s, 10, 64)\<close> before its range check: the digits, most significant first.\<close>

fun parseDigits :: "nat \<Rightarrow> string \<Rightarrow> nat option" where
  "parseDigits n [] = Some n"
| "parseDigits n (c # cs) =
     (if isDigit c then parseDigits (10 * n + ((of_char c :: nat) - 48)) cs else None)"

text \<open>
  \<open>strconv.ParseInt(s, 10, 64)\<close>: an optional sign, at least one digit, nothing else, and
  the value within the 64-bit signed range. Every failure (syntax or range) is an error
  to the callers, which only test \<open>err != nil\<close>; it is \<open>None\<close> here.
\<close>

definition ParseInt :: "string \<Rightarrow> int option" where
  "ParseInt s =
     (case s of
        [] \<Rightarrow> None
      | c # cs \<Rightarrow>
          (let neg = (c = CHR ''-'');
               ds = (if c = CHR ''+'' \<or> c = CHR ''-'' then cs else s)
           in if ds = [] then None
              else (case parseDigits 0 ds of
                      None \<Rightarrow> None
                    | Some un \<Rightarrow>
                        if \<not> neg \<and> int un \<ge> 2 ^ 63 then None
                        else if neg \<and> int un > 2 ^ 63 then None
                        else Some (if neg then - int un else int un))))"

text \<open>\<open>strconv.Atoi\<close>: \<open>ParseInt(s, 10, 0)\<close> with \<open>int\<close> 64 bits wide (its fast path computes the same).\<close>

definition Atoi :: "string \<Rightarrow> int option" where
  "Atoi s = ParseInt s"

fun formatUint :: "nat \<Rightarrow> string" where
  "formatUint n = (if n < 10 then [digitChar n] else formatUint (n div 10) @ [digitChar (n mod 10)])"

declare formatUint.simps [simp del]

text \<open>\<open>strconv.FormatInt(i, 10)\<close> and \<open>strconv.Itoa\<close>: a minus sign for negatives, then the digits.\<close>

definition FormatInt :: "int \<Rightarrow> string" where
  "FormatInt i = (if i < 0 then CHR ''-'' # formatUint (nat (- i)) else formatUint (nat i))"

definition Itoa :: "int \<Rightarrow> string" where
  "Itoa i = FormatInt i"

section \<open>The RESP codec\<close>

text \<open>\<open>RESPType\<close> is a byte; the five constants are the type-tag bytes of the protocol.\<close>

type_synonym RESPType = char

abbreviation SimpleString :: RESPType where "SimpleString \<equiv> CHR ''+''"
abbreviation Error :: RESPType where "Error \<equiv> CHR ''-''"
abbreviation Integer :: RESPType where "Integer \<equiv> CHR '':''"
abbreviation BulkString :: RESPType where "BulkString \<equiv> CHR ''$''"
abbreviation ArrayT :: RESPType where "ArrayT \<equiv> CHR ''*''"

text \<open>
  The struct \<open>RESPValue\<close>; it contains a slice of itself, so it is a datatype with the
  struct's fields as selectors. \<open>ArrayT\<close> is the constant \<open>Array\<close> of the source, renamed
  because the field has the same name; \<open>IntVal\<close> is the field \<open>Int\<close>.
\<close>

datatype RESPValue =
  RESPValue (Type: RESPType) (Str: string) (IntVal: "64 word") (Array: "RESPValue list") (Null: bool)

text \<open>
  \<open>readLine\<close>: \<open>ReadString('\n')\<close> returns the bytes up to and including the first line
  feed, or \<open>io.EOF\<close> when the stream ends before one; the line must then end in
  \<open>\r\n\<close>, which is cut off. The result carries the rest of the stream.
\<close>

definition readLine :: "string \<Rightarrow> error + (string \<times> string)" where
  "readLine inp =
     (if LF \<notin> set inp then Inl EOF
      else let line = takeWhile (\<lambda>c. c \<noteq> LF) inp @ [LF];
               rest = tl (dropWhile (\<lambda>c. c \<noteq> LF) inp)
           in if length line < 2 \<or> line ! (length line - 2) \<noteq> CR then Inl InvalidLineTerminator
              else Inr (take (length line - 2) line, rest))"

definition readSimpleString :: "string \<Rightarrow> error + (RESPValue \<times> string)" where
  "readSimpleString inp =
     (case readLine inp of
        Inl err \<Rightarrow> Inl err
      | Inr (line, rest) \<Rightarrow> Inr (RESPValue SimpleString line 0 [] False, rest))"

definition readError :: "string \<Rightarrow> error + (RESPValue \<times> string)" where
  "readError inp =
     (case readLine inp of
        Inl err \<Rightarrow> Inl err
      | Inr (line, rest) \<Rightarrow> Inr (RESPValue Error line 0 [] False, rest))"

definition readInteger :: "string \<Rightarrow> error + (RESPValue \<times> string)" where
  "readInteger inp =
     (case readLine inp of
        Inl err \<Rightarrow> Inl err
      | Inr (line, rest) \<Rightarrow>
          (case ParseInt line of
             None \<Rightarrow> Inl (InvalidInteger line)
           | Some num \<Rightarrow> Inr (RESPValue Integer [] (word_of_int num) [] False, rest)))"

text \<open>
  \<open>readBulkString\<close>. \<open>size + 2\<close> is computed in 64 bits: when it wraps, \<open>make\<close> panics
  on the negative length, and it panics as well when \<open>size + 2\<close> bytes are more than
  \<open>maxAlloc\<close>. \<open>io.ReadFull\<close> returns \<open>io.EOF\<close> when no byte is left and
  \<open>io.ErrUnexpectedEOF\<close> when the stream ends inside the buffer.
\<close>

definition readBulkString :: "string \<Rightarrow> error + (RESPValue \<times> string)" where
  "readBulkString inp =
     (case readLine inp of
        Inl err \<Rightarrow> Inl err
      | Inr (line, rest) \<Rightarrow>
          (case Atoi line of
             None \<Rightarrow> Inl (InvalidBulkStringSize line)
           | Some sz \<Rightarrow>
               if sz < 0 then Inr (RESPValue BulkString [] 0 [] True, rest)
               else if sz + 2 > max_int then Inl PanicMakeSliceLenOutOfRange
               else if sz + 2 > maxAlloc then Inl PanicMakeSliceLenOutOfRange
               else if rest = [] then Inl EOF
               else if length rest < nat sz + 2 then Inl ErrUnexpectedEOF
               else let buf = take (nat sz + 2) rest
                    in if buf ! nat sz \<noteq> CR \<or> buf ! (nat sz + 1) \<noteq> LF
                       then Inl InvalidBulkStringTerminator
                       else Inr (RESPValue BulkString (take (nat sz) buf) 0 [] False,
                                 drop (nat sz + 2) rest)))"

lemma readLine_shorter:
  assumes "readLine inp = Inr (line, rest)"
  shows "length rest < length inp"
proof -
  from assms have lf: "LF \<in> set inp"
    by (auto simp: readLine_def split: if_splits)
  from assms have rest: "rest = tl (dropWhile (\<lambda>c. c \<noteq> LF) inp)"
    by (auto simp: readLine_def Let_def split: if_splits)
  from lf have ne: "dropWhile (\<lambda>c. c \<noteq> LF) inp \<noteq> []"
    by (auto simp: dropWhile_eq_Nil_conv)
  have "length (dropWhile (\<lambda>c. c \<noteq> LF) inp) \<le> length inp"
    by (rule length_dropWhile_le)
  with ne rest show ?thesis
    by (cases "dropWhile (\<lambda>c. c \<noteq> LF) inp") auto
qed


text \<open>
  The size of a \<open>RESPValue\<close> in bytes on a 64-bit platform: the type byte and the flag
  with their padding (8 each), the string header (16), the integer (8) and the slice
  header (24).
\<close>

definition sizeofRESPValue :: int where
  "sizeofRESPValue = 64"

text \<open>
  \<open>ReadValue\<close> and the loop of \<open>readArray\<close>, which calls \<open>ReadValue\<close> once per element.
  \<open>make([]RESPValue, count)\<close> panics when \<open>count\<close> elements are more than \<open>maxAlloc\<close>
  bytes. \<open>readArrayElems n\<close> is the loop with \<open>n\<close> iterations left; it returns the
  elements in the order read.
\<close>

function ReadValue :: "string \<Rightarrow> error + (RESPValue \<times> string)"
  and readArrayElems :: "nat \<Rightarrow> string \<Rightarrow> error + (RESPValue list \<times> string)"
where
  "ReadValue [] = Inl EOF"
| "ReadValue (typeByte # inp) =
     (if typeByte = SimpleString then readSimpleString inp
      else if typeByte = Error then readError inp
      else if typeByte = Integer then readInteger inp
      else if typeByte = BulkString then readBulkString inp
      else if typeByte = ArrayT then
        (case readLine inp of
           Inl err \<Rightarrow> Inl err
         | Inr (line, rest) \<Rightarrow>
             (case Atoi line of
                None \<Rightarrow> Inl (InvalidArrayCount line)
              | Some count \<Rightarrow>
                  if count < 0 then Inr (RESPValue ArrayT [] 0 [] True, rest)
                  else if count * sizeofRESPValue > maxAlloc then Inl PanicMakeSliceLenOutOfRange
                  else (case readArrayElems (nat count) rest of
                          Inl err \<Rightarrow> Inl err
                        | Inr (arr, rest') \<Rightarrow> Inr (RESPValue ArrayT [] 0 arr False, rest'))))
      else Inl (UnknownRESPType typeByte))"
| "readArrayElems 0 inp = Inr ([], inp)"
| "readArrayElems (Suc n) inp =
     (case ReadValue inp of
        Inl err \<Rightarrow> Inl err
      | Inr (val, rest) \<Rightarrow>
          (case readArrayElems n rest of
             Inl err \<Rightarrow> Inl err
           | Inr (arr, rest') \<Rightarrow> Inr (val # arr, rest')))"
  apply pat_completeness
  apply simp_all
  done

lemma readSimpleString_shorter:
  "readSimpleString inp = Inr (v, rest) \<Longrightarrow> length rest < length inp"
  by (auto simp: readSimpleString_def split: sum.splits dest: readLine_shorter)

lemma readError_shorter:
  "readError inp = Inr (v, rest) \<Longrightarrow> length rest < length inp"
  by (auto simp: readError_def split: sum.splits dest: readLine_shorter)

lemma readInteger_shorter:
  "readInteger inp = Inr (v, rest) \<Longrightarrow> length rest < length inp"
  by (auto simp: readInteger_def split: sum.splits option.splits dest: readLine_shorter)

lemma readBulkString_shorter:
  "readBulkString inp = Inr (v, rest) \<Longrightarrow> length rest < length inp"
  by (fastforce simp: readBulkString_def Let_def split: sum.splits option.splits if_splits
        dest: readLine_shorter)


lemma ReadValue_dom_shorter:
  "ReadValue_readArrayElems_dom (Inl inp) \<Longrightarrow> ReadValue inp = Inr (v, rest) \<Longrightarrow>
     length rest < length inp"
  "ReadValue_readArrayElems_dom (Inr (n, inp)) \<Longrightarrow> readArrayElems n inp = Inr (vs, rest) \<Longrightarrow>
     length rest \<le> length inp"
proof (induction inp and n inp arbitrary: v rest and vs rest rule: ReadValue_readArrayElems.pinduct)
  case 1
  then show ?case by (simp add: ReadValue.psimps)
next
  case (2 typeByte inp)
  show ?case
  proof (cases "typeByte = ArrayT")
    case False
    with "2.prems" "2.hyps" show ?thesis
      by (auto simp: ReadValue.psimps split: if_splits
          dest!: readSimpleString_shorter readError_shorter readInteger_shorter
          readBulkString_shorter)
  next
    case True
    from "2.prems" "2.hyps" True obtain line r1 count where
      rl: "readLine inp = Inr (line, r1)" and at: "Atoi line = Some count"
      by (auto simp: ReadValue.psimps split: sum.splits option.splits)
    show ?thesis
    proof (cases "count < 0")
      case True
      with "2.prems" "2.hyps" \<open>typeByte = ArrayT\<close> rl at readLine_shorter[OF rl]
      show ?thesis by (auto simp: ReadValue.psimps)
    next
      case False
      with "2.prems" "2.hyps" \<open>typeByte = ArrayT\<close> rl at
      have cap: "\<not> count * sizeofRESPValue > maxAlloc"
        by (auto simp: ReadValue.psimps split: if_splits)
      with False "2.prems" "2.hyps" \<open>typeByte = ArrayT\<close> rl at obtain arr where
        el: "readArrayElems (nat count) r1 = Inr (arr, rest)"
        by (auto simp: ReadValue.psimps split: sum.splits)
      have "length rest \<le> length r1"
        using "2.IH"[OF _ _ _ _ \<open>typeByte = ArrayT\<close> rl refl at False cap el] \<open>typeByte = ArrayT\<close>
        by simp
      with readLine_shorter[OF rl] show ?thesis by simp
    qed
  qed
next
  case (3 inp)
  then show ?case by (simp add: readArrayElems.psimps)
next
  case (4 n inp)
  from "4.prems" "4.hyps" obtain val r1 arr where
    rv: "ReadValue inp = Inr (val, r1)" and el: "readArrayElems n r1 = Inr (arr, rest)"
    by (auto simp: readArrayElems.psimps split: sum.splits)
  from "4.IH"(1)[OF rv] have "length r1 < length inp" .
  moreover from "4.IH"(2)[OF rv refl el] have "length rest \<le> length r1" by simp
  ultimately show ?case by simp
qed

termination ReadValue
proof (relation "inv_image (less_than <*lex*> less_than)
                   (\<lambda>x. case x of Inl inp \<Rightarrow> (2 * length inp, 0)
                              | Inr (n, inp) \<Rightarrow> (2 * length inp + 1, n))",
       goal_cases)
  case 1
  then show ?case by (intro wf_inv_image wf_lex_prod wf_less_than)
next
  case (2 typeByte inp x2 x y xa)
  then show ?case by (auto dest: readLine_shorter)
next
  case (3 n inp)
  then show ?case by simp
next
  case (4 n inp x2 x y)
  then show ?case by (auto dest: ReadValue_dom_shorter(1))
qed


text \<open>
  \<open>Serialize\<close>: the switch on \<open>v.Type\<close>; a type byte that is none of the five constants
  writes nothing. \<open>v.Int\<close> is an \<open>int64\<close>, read as two's complement.
\<close>

fun Serialize :: "RESPValue \<Rightarrow> string" where
  "Serialize (RESPValue t str i arr null) =
     (if t = SimpleString then CHR ''+'' # str @ [CR, LF]
      else if t = Error then CHR ''-'' # str @ [CR, LF]
      else if t = Integer then CHR '':'' # FormatInt (sint i) @ [CR, LF]
      else if t = BulkString then
        CHR ''$'' # (if null then ''-1'' @ [CR, LF]
                     else Itoa (int (length str)) @ [CR, LF] @ str @ [CR, LF])
      else if t = ArrayT then
        CHR ''*'' # (if null then ''-1'' @ [CR, LF]
                     else Itoa (int (length arr)) @ [CR, LF] @ concat (map Serialize arr))
      else [])"

section \<open>Redirect detection and rewriting\<close>

text \<open>\<open>strings.HasPrefix\<close>.\<close>

definition HasPrefix :: "string \<Rightarrow> string \<Rightarrow> bool" where
  "HasPrefix s pre = (length s \<ge> length pre \<and> take (length pre) s = pre)"

definition IsRedirectError :: "RESPValue \<Rightarrow> bool" where
  "IsRedirectError v =
     (if Type v \<noteq> Error then False
      else HasPrefix (Str v) ''MOVED '' \<or> HasPrefix (Str v) ''ASK '')"

text \<open>
  White space as \<open>strings.Fields\<close> and \<open>strings.TrimSpace\<close> see it (\<open>unicode.IsSpace\<close>):
  the six ASCII characters, and the UTF-8 encodings of U+0085, U+00A0, U+1680,
  U+2000 to U+200A, U+2028, U+2029, U+202F, U+205F and U+3000.
  \<open>spaceWidth s\<close> is the number of bytes of the white-space character that \<open>s\<close> starts
  with, and 0 when it starts with none. A white-space character always begins at a byte
  that is no continuation byte, which is where the library's decoder begins a character
  too, so scanning byte by byte finds the same separators.
\<close>

definition asciiSpace :: "char \<Rightarrow> bool" where
  "asciiSpace c = (c = CHR 0x09 \<or> c = LF \<or> c = CHR 0x0B \<or> c = CHR 0x0C \<or> c = CR \<or> c = CHR '' '')"

definition unicodeSpaces :: "string list" where
  "unicodeSpaces =
     [[CHR 0xC2, CHR 0x85], [CHR 0xC2, CHR 0xA0], [CHR 0xE1, CHR 0x9A, CHR 0x80],
      [CHR 0xE2, CHR 0x80, CHR 0x80], [CHR 0xE2, CHR 0x80, CHR 0x81],
      [CHR 0xE2, CHR 0x80, CHR 0x82], [CHR 0xE2, CHR 0x80, CHR 0x83],
      [CHR 0xE2, CHR 0x80, CHR 0x84], [CHR 0xE2, CHR 0x80, CHR 0x85],
      [CHR 0xE2, CHR 0x80, CHR 0x86], [CHR 0xE2, CHR 0x80, CHR 0x87],
      [CHR 0xE2, CHR 0x80, CHR 0x88], [CHR 0xE2, CHR 0x80, CHR 0x89],
      [CHR 0xE2, CHR 0x80, CHR 0x8A], [CHR 0xE2, CHR 0x80, CHR 0xA8],
      [CHR 0xE2, CHR 0x80, CHR 0xA9], [CHR 0xE2, CHR 0x80, CHR 0xAF],
      [CHR 0xE2, CHR 0x81, CHR 0x9F], [CHR 0xE3, CHR 0x80, CHR 0x80]]"

definition spaceWidth :: "string \<Rightarrow> nat" where
  "spaceWidth s =
     (case s of
        [] \<Rightarrow> 0
      | c # _ \<Rightarrow>
          if asciiSpace c then 1
          else (case find (\<lambda>w. take (length w) s = w) unicodeSpaces of
                  Some w \<Rightarrow> length w
                | None \<Rightarrow> 0))"

lemma spaceWidth_le: "spaceWidth s \<le> length s"
proof (cases s)
  case Nil
  then show ?thesis by (simp add: spaceWidth_def)
next
  case (Cons c cs)
  show ?thesis
  proof (cases "find (\<lambda>w. take (length w) s = w) unicodeSpaces")
    case None
    with Cons show ?thesis by (simp add: spaceWidth_def)
  next
    case (Some w)
    then have "take (length w) s = w" by (auto simp: find_Some_iff)
    then have "length (take (length w) s) = length w" by simp
    then have "length w \<le> length s" by simp
    with Cons Some show ?thesis by (simp add: spaceWidth_def)
  qed
qed

text \<open>
  \<open>strings.Fields\<close>: the maximal runs of bytes between white space, in order. \<open>cur\<close> is
  the field being collected.
\<close>

function FieldsFrom :: "string \<Rightarrow> string \<Rightarrow> string list" where
  "FieldsFrom cur [] = (if cur = [] then [] else [cur])"
| "FieldsFrom cur (c # cs) =
     (if 0 < spaceWidth (c # cs)
      then (if cur = [] then [] else [cur]) @ FieldsFrom [] (drop (spaceWidth (c # cs)) (c # cs))
      else FieldsFrom (cur @ [c]) cs)"
  by pat_completeness auto
termination
  by (relation "measure (\<lambda>(cur, s). length s)") auto

definition Fields :: "string \<Rightarrow> string list" where
  "Fields s = FieldsFrom [] s"

text \<open>A struct with the field \<open>Str\<close> assigned.\<close>

definition set_Str :: "RESPValue \<Rightarrow> string \<Rightarrow> RESPValue" where
  "set_Str v s = RESPValue (Type v) s (IntVal v) (Array v) (Null v)"

text \<open>
  \<open>RewriteRedirectError\<close> mutates its receiver; the model returns the result together with
  the value after the call. \<open>fmt.Sprintf("%s %s %s", ...)\<close> joins the three strings with
  single spaces.
\<close>

definition RewriteRedirectError :: "RESPValue \<Rightarrow> (string \<rightharpoonup> string) \<Rightarrow> bool \<times> RESPValue" where
  "RewriteRedirectError v nodeMap =
     (if \<not> IsRedirectError v then (False, v)
      else let parts = Fields (Str v)
           in if length parts \<noteq> 3 then (False, v)
              else let redirectType = parts ! 0;
                       slot = parts ! 1;
                       targetAddr = parts ! 2
                   in (case nodeMap targetAddr of
                         None \<Rightarrow> (False, v)
                       | Some localAddr \<Rightarrow>
                           (True, set_Str v (redirectType @ '' '' @ slot @ '' '' @ localAddr))))"

section \<open>Values of the RESP grammar\<close>

text \<open>
  \<open>constructible v\<close>: the struct \<open>v\<close> is a value of the RESP grammar that a Go program can
  hold. Its type byte is one of the five; the payload of a simple string or an error has
  no line feed (the grammar ends it at the first line break); a bulk string or an array
  is null, or has a length that a slice can have (for a bulk string together with its
  two terminator bytes: the parser reads them into one buffer) and, for an array,
  elements that are values of the grammar.
\<close>

fun constructible :: "RESPValue \<Rightarrow> bool" where
  "constructible (RESPValue t str i arr null) =
     (if t = SimpleString \<or> t = Error then LF \<notin> set str
      else if t = Integer then True
      else if t = BulkString then null \<or> int (length str) + 2 \<le> maxAlloc
      else if t = ArrayT then
        null \<or> (int (length arr) * sizeofRESPValue \<le> maxAlloc \<and> list_all constructible arr)
      else False)"

text \<open>
  \<open>parsed v\<close> is the struct that the parser builds for the wire form of \<open>v\<close>: the fields
  that \<open>Serialize\<close> does not look at are left at their zero values.
\<close>

fun parsed :: "RESPValue \<Rightarrow> RESPValue" where
  "parsed (RESPValue t str i arr null) =
     (if t = SimpleString \<or> t = Error then RESPValue t str 0 [] False
      else if t = Integer then RESPValue t [] i [] False
      else if t = BulkString then (if null then RESPValue t [] 0 [] True else RESPValue t str 0 [] False)
      else if null then RESPValue t [] 0 [] True
      else RESPValue t [] 0 (map parsed arr) False)"

section \<open>Cluster topology: parsing the node table\<close>

text \<open>
  \<open>strings.TrimSpace\<close> removes the white-space characters at both ends, first from the
  left, then from the right of what is left. \<open>trailingSpaceWidth s\<close> is the number of
  bytes of the white-space character that \<open>s\<close> ends with, 0 when it ends with none.
\<close>

definition trailingSpaceWidth :: "string \<Rightarrow> nat" where
  "trailingSpaceWidth s =
     (if s = [] then 0
      else if asciiSpace (last s) then 1
      else (case find (\<lambda>w. length w \<le> length s \<and> drop (length s - length w) s = w) unicodeSpaces of
              Some w \<Rightarrow> length w
            | None \<Rightarrow> 0))"

lemma trailingSpaceWidth_le: "trailingSpaceWidth s \<le> length s"
proof (cases "s = []")
  case True
  then show ?thesis by (simp add: trailingSpaceWidth_def)
next
  case False
  show ?thesis
  proof (cases "find (\<lambda>w. length w \<le> length s \<and> drop (length s - length w) s = w) unicodeSpaces")
    case None
    with False show ?thesis by (cases s) (simp_all add: trailingSpaceWidth_def)
  next
    case (Some w)
    then have "length w \<le> length s" by (auto simp: find_Some_iff)
    with False Some show ?thesis by (cases s) (simp_all add: trailingSpaceWidth_def)
  qed
qed

function trimLeft :: "string \<Rightarrow> string" where
  "trimLeft s = (if 0 < spaceWidth s then trimLeft (drop (spaceWidth s) s) else s)"
  by pat_completeness auto
termination trimLeft
proof (relation "measure length", goal_cases)
  case 1
  then show ?case by simp
next
  case (2 s)
  with spaceWidth_le[of s] show ?case by simp
qed

declare trimLeft.simps [simp del]

function trimRight :: "string \<Rightarrow> string" where
  "trimRight s =
     (if 0 < trailingSpaceWidth s then trimRight (take (length s - trailingSpaceWidth s) s) else s)"
  by pat_completeness auto
termination trimRight
proof (relation "measure length", goal_cases)
  case 1
  then show ?case by simp
next
  case (2 s)
  with trailingSpaceWidth_le[of s] show ?case by simp
qed

declare trimRight.simps [simp del]

definition TrimSpace :: "string \<Rightarrow> string" where
  "TrimSpace s = trimRight (trimLeft s)"

text \<open>\<open>strings.Split(s, sep)\<close> for a separator of one byte: the pieces between the separators.\<close>

fun Split :: "string \<Rightarrow> char \<Rightarrow> string list" where
  "Split [] sep = [[]]"
| "Split (c # cs) sep =
     (if c = sep then [] # Split cs sep
      else (case Split cs sep of [] \<Rightarrow> [[c]] | l # ls \<Rightarrow> (c # l) # ls))"

text \<open>\<open>strings.Contains\<close>.\<close>

fun Contains :: "string \<Rightarrow> string \<Rightarrow> bool" where
  "Contains [] sub = (sub = [])"
| "Contains (c # cs) sub = (HasPrefix (c # cs) sub \<or> Contains cs sub)"

text \<open>
  \<open>fmt.Sscanf(s, "%d", &port)\<close> on a piece of a field (which has no white space): an
  optional sign and the longest run of decimal digits, handed to \<open>ParseInt\<close>; what
  follows the digits is not looked at. \<open>None\<close> is an error of the scan (no digit, or
  a number out of range), which leaves \<open>port\<close> as it was.
\<close>

definition scanInt :: "string \<Rightarrow> int option" where
  "scanInt s =
     (let sign = (if s \<noteq> [] \<and> (hd s = CHR ''+'' \<or> hd s = CHR ''-'') then [hd s] else []);
          r = drop (length sign) s;
          ds = takeWhile isDigit r
      in if ds = [] then None else ParseInt (sign @ ds))"

record ClusterNode =
  ID :: string
  Address :: string
  Port :: int
  Flags :: string
  Role :: string

text \<open>
  The body of the loop of \<open>parseClusterNodes\<close> for one line; \<open>None\<close> is
  \<open>continue\<close> (an empty line, or one with fewer than 8 fields).
\<close>

definition parseNodeLine :: "string \<Rightarrow> ClusterNode option" where
  "parseNodeLine line0 =
     (let line = TrimSpace line0
      in if line = [] then None
         else let fields = Fields line
              in if length fields < 8 then None
                 else let nodeID = fields ! 0;
                          addressField = fields ! 1;
                          flags = fields ! 2;
                          address = addressField;
                          address = (if CHR ''@'' \<in> set address
                                     then takeWhile (\<lambda>c. c \<noteq> CHR ''@'') address else address);
                          address = (if CHR '','' \<in> set address
                                     then takeWhile (\<lambda>c. c \<noteq> CHR '','') address else address);
                          parts = Split address (CHR '':'');
                          port = (if length parts = 2
                                  then (case scanInt (parts ! 1) of Some p \<Rightarrow> p | None \<Rightarrow> 0)
                                  else 0);
                          role = (if Contains flags ''master'' then ''master'' else ''slave'')
                      in Some \<lparr>ID = nodeID, Address = address, Port = port, Flags = flags, Role = role\<rparr>)"

text \<open>\<open>parseClusterNodes\<close>; its error result is always nil, so the model returns the list.\<close>

definition parseClusterNodes :: "string \<Rightarrow> ClusterNode list" where
  "parseClusterNodes output = List.map_filter parseNodeLine (Split (TrimSpace output) LF)"

text \<open>\<open>FilterUniqueNodes\<close>; \<open>seen\<close> is the set of keys of the map of that name.\<close>

fun FilterUniqueLoop :: "ClusterNode list \<Rightarrow> string \<Rightarrow> string set \<Rightarrow> ClusterNode list" where
  "FilterUniqueLoop [] currentAddress seen = []"
| "FilterUniqueLoop (node # nodes) currentAddress seen =
     (if Address node = currentAddress then FilterUniqueLoop nodes currentAddress seen
      else if Contains (Flags node) ''myself'' then FilterUniqueLoop nodes currentAddress seen
      else if Address node \<in> seen then FilterUniqueLoop nodes currentAddress seen
      else node # FilterUniqueLoop nodes currentAddress (insert (Address node) seen))"

definition FilterUniqueNodes :: "ClusterNode list \<Rightarrow> string \<Rightarrow> ClusterNode list" where
  "FilterUniqueNodes nodes currentAddress = FilterUniqueLoop nodes currentAddress {}"

text \<open>
  Every value read takes at least its type byte from the stream, and the elements of an
  array never give bytes back.
\<close>

lemma ReadValue_shorter:
  "ReadValue inp = Inr (v, rest) \<Longrightarrow> length rest < length inp"
  "readArrayElems n inp = Inr (vs, rest) \<Longrightarrow> length rest \<le> length inp"
proof (induction inp and n inp arbitrary: v rest and vs rest rule: ReadValue_readArrayElems.induct)
  case 1
  then show ?case by simp
next
  case (2 typeByte inp)
  show ?case
  proof (cases "typeByte = ArrayT")
    case False
    with "2.prems" show ?thesis
      by (auto split: if_splits
          dest!: readSimpleString_shorter readError_shorter readInteger_shorter
          readBulkString_shorter)
  next
    case True
    from "2.prems" True obtain line r1 count where
      rl: "readLine inp = Inr (line, r1)" and at: "Atoi line = Some count"
      by (auto split: sum.splits option.splits)
    show ?thesis
    proof (cases "count < 0")
      case True
      with "2.prems" \<open>typeByte = ArrayT\<close> rl at readLine_shorter[OF rl]
      show ?thesis by auto
    next
      case False
      with "2.prems" \<open>typeByte = ArrayT\<close> rl at
      have cap: "\<not> count * sizeofRESPValue > maxAlloc"
        by (auto split: if_splits)
      with False "2.prems" \<open>typeByte = ArrayT\<close> rl at obtain arr where
        el: "readArrayElems (nat count) r1 = Inr (arr, rest)"
        by (auto split: sum.splits)
      have "length rest \<le> length r1"
        using "2.IH"[OF _ _ _ _ \<open>typeByte = ArrayT\<close> rl refl at False cap el] \<open>typeByte = ArrayT\<close>
        by simp
      with readLine_shorter[OF rl] show ?thesis by simp
    qed
  qed
next
  case (3 inp)
  then show ?case by simp
next
  case (4 n inp)
  from "4.prems" obtain val r1 arr where
    rv: "ReadValue inp = Inr (val, r1)" and el: "readArrayElems n r1 = Inr (arr, rest)"
    by (auto split: sum.splits)
  from "4.IH"(1)[OF rv] have "length r1 < length inp" .
  moreover from "4.IH"(2)[OF rv refl el] have "length rest \<le> length r1" by simp
  ultimately show ?case by simp
qed

section \<open>Authentication\<close>

text \<open>
  What the remote end of a connection does during the handshake: \<open>writeFails\<close> says
  that \<open>conn.Write\<close> returns an error; \<open>readResult\<close> is \<open>None\<close> when \<open>conn.Read\<close>
  returns an error, and otherwise the bytes that have arrived when the one \<open>Read\<close> is
  made, of which the 1024-byte buffer takes at most the first 1024.
\<close>

record Conn =
  writeFails :: bool
  readResult :: "string option"

datatype AuthError =
    FailedToGetIAMToken
  | FailedToSendAUTH
  | FailedToReadAUTHResponse
  | AuthenticationFailed string

text \<open>The command of \<open>fmt.Sprintf("*2\r\n$4\r\nAUTH\r\n$%d\r\n%s\r\n", len(cred), cred)\<close>.\<close>

definition authCmd :: "string \<Rightarrow> string" where
  "authCmd cred =
     ''*2'' @ [CR, LF] @ ''$4'' @ [CR, LF] @ ''AUTH'' @ [CR, LF]
     @ ''$'' @ Itoa (int (length cred)) @ [CR, LF] @ cred @ [CR, LF]"

text \<open>
  \<open>Proxy.authenticatePassword\<close>. The result is the bytes written to the connection and
  the error returned, \<open>None\<close> for nil. The deadlines are not modelled: a deadline that
  passes is an error of the write or of the read.
\<close>

definition authenticatePassword :: "Conn \<Rightarrow> string \<Rightarrow> string \<times> AuthError option" where
  "authenticatePassword conn password =
     (if writeFails conn then ([], Some FailedToSendAUTH)
      else (case readResult conn of
              None \<Rightarrow> (authCmd password, Some FailedToReadAUTHResponse)
            | Some arrived \<Rightarrow>
                let respStr = take 1024 arrived
                in if length respStr \<ge> 5 \<and> take 5 respStr = ''+OK'' @ [CR, LF]
                   then (authCmd password, None)
                   else (authCmd password, Some (AuthenticationFailed respStr))))"

text \<open>
  \<open>Proxy.authenticateIAM\<close>; \<open>tokenResult\<close> is what \<open>tokenSource.GetToken\<close> returns,
  \<open>None\<close> for an error.
\<close>

definition authenticateIAM :: "Conn \<Rightarrow> string option \<Rightarrow> string \<times> AuthError option" where
  "authenticateIAM conn tokenResult =
     (case tokenResult of
        None \<Rightarrow> ([], Some FailedToGetIAMToken)
      | Some token \<Rightarrow>
          if writeFails conn then ([], Some FailedToSendAUTH)
          else (case readResult conn of
                  None \<Rightarrow> (authCmd token, Some FailedToReadAUTHResponse)
                | Some arrived \<Rightarrow>
                    let respStr = take 1024 arrived
                    in if length respStr \<ge> 5 \<and> take 5 respStr = ''+OK'' @ [CR, LF]
                       then (authCmd token, None)
                       else (authCmd token, Some (AuthenticationFailed respStr))))"

text \<open>The manager's copies of the two, used on the discovery connection.\<close>

definition authenticatePasswordOnConn :: "Conn \<Rightarrow> string \<Rightarrow> string \<times> AuthError option" where
  "authenticatePasswordOnConn conn password =
     (if writeFails conn then ([], Some FailedToSendAUTH)
      else (case readResult conn of
              None \<Rightarrow> (authCmd password, Some FailedToReadAUTHResponse)
            | Some arrived \<Rightarrow>
                let respStr = take 1024 arrived
                in if length respStr \<ge> 5 \<and> take 5 respStr = ''+OK'' @ [CR, LF]
                   then (authCmd password, None)
                   else (authCmd password, Some (AuthenticationFailed respStr))))"

definition authenticateIAMOnConn :: "Conn \<Rightarrow> string option \<Rightarrow> string \<times> AuthError option" where
  "authenticateIAMOnConn conn tokenResult =
     (case tokenResult of
        None \<Rightarrow> ([], Some FailedToGetIAMToken)
      | Some token \<Rightarrow>
          if writeFails conn then ([], Some FailedToSendAUTH)
          else (case readResult conn of
                  None \<Rightarrow> (authCmd token, Some FailedToReadAUTHResponse)
                | Some arrived \<Rightarrow>
                    let respStr = take 1024 arrived
                    in if length respStr \<ge> 5 \<and> take 5 respStr = ''+OK'' @ [CR, LF]
                       then (authCmd token, None)
                       else (authCmd token, Some (AuthenticationFailed respStr))))"

section \<open>Proxy instances\<close>

datatype IAMTokenProvider = IAMTokenProvider

record TLSConfig =
  RootCAs :: "string option"
  InsecureSkipVerify :: bool

record Config =
  LocalAddr :: string

text \<open>
  \<open>discovery.Endpoint\<close>; its fields \<open>Port\<close> and \<open>Type\<close> carry the record's name
  because \<open>ClusterNode\<close> and \<open>RESPValue\<close> have fields of these names.
\<close>

record Endpoint =
  Host :: string
  EndpointPort :: int
  EndpointType :: string

text \<open>
  A Go map is a reference: the \<open>nodeMap\<close> of a proxy and the \<open>nodeMap\<close> of its manager
  are the same map object. A map object is an address in a store of maps; a \<open>bool\<close>
  field is copied by value. \<open>listener\<close> says that the proxy holds a bound listener,
  \<open>shutdown\<close> that its shutdown channel is closed. The wait group belongs to the
  scheduling of connections and is left out.
\<close>

type_synonym mapref = nat

type_synonym mapstore = "mapref \<Rightarrow> (string \<rightharpoonup> string)"

record Proxy =
  localAddr :: string
  remoteAddr :: string
  endpoint :: Endpoint
  listener :: bool
  config :: Config
  tokenSource :: "IAMTokenProvider option"
  authPassword :: string
  tlsConfig :: "TLSConfig option"
  isClusterMode :: bool
  nodeMap :: mapref
  shutdown :: bool

text \<open>
  \<open>proxyServerResponses\<close>: the loop that reads one value after the other from the remote,
  rewrites a redirect and writes the serialization to the client. The result is the
  bytes written to the client and the error that ends the loop; the client is taken to
  accept every write. The node map is the one the proxy refers to, as it is while the
  connection lasts.
\<close>

function proxyServerResponses :: "(string \<rightharpoonup> string) \<Rightarrow> string \<Rightarrow> string \<times> error" where
  "proxyServerResponses nmap inp =
     (case ReadValue inp of
        Inl err \<Rightarrow> ([], err)
      | Inr (val, rest) \<Rightarrow>
          let val' = (if IsRedirectError val then snd (RewriteRedirectError val nmap) else val);
              data = Serialize val';
              (out, err) = proxyServerResponses nmap rest
          in (data @ out, err))"
  by pat_completeness auto
termination proxyServerResponses
  by (relation "measure (\<lambda>(nmap, inp). length inp)") (auto dest: ReadValue_shorter(1))

declare proxyServerResponses.simps [simp del]

text \<open>
  The remote-to-client direction of the two relays: \<open>io.Copy\<close> hands on every byte;
  the cluster relay hands on what \<open>proxyServerResponses\<close> writes. The two directions
  of a relay run concurrently and the relay ends with the first of them; the model
  gives what the client receives when it stays connected until the remote's stream ends.
\<close>

definition handleSimpleConnection :: "string \<Rightarrow> string" where
  "handleSimpleConnection serverBytes = serverBytes"

definition handleClusterConnection :: "Proxy \<Rightarrow> mapstore \<Rightarrow> string \<Rightarrow> string" where
  "handleClusterConnection p maps serverBytes =
     fst (proxyServerResponses (maps (Proxy.nodeMap p)) serverBytes)"

text \<open>
  What one accepted connection meets: whether the dial (and TLS handshake) succeeds, the
  remote's behaviour during authentication, the token source's answer, and the bytes the
  remote sends after authentication.
\<close>

record ConnEnv =
  dialOK :: bool
  authConn :: Conn
  tokenResult :: "string option"
  serverBytes :: string

datatype PipelineResult =
    DialFailed
  | AuthFailed AuthError
  | Relayed string

text \<open>\<open>handleConnection\<close>: dial, authenticate (the password first), relay.\<close>

definition handleConnection :: "Proxy \<Rightarrow> mapstore \<Rightarrow> ConnEnv \<Rightarrow> PipelineResult" where
  "handleConnection p maps env =
     (if \<not> dialOK env then DialFailed
      else let authErr =
                 (if Proxy.authPassword p \<noteq> [] then snd (authenticatePassword (authConn env) (Proxy.authPassword p))
                  else if Proxy.tokenSource p \<noteq> None then snd (authenticateIAM (authConn env) (tokenResult env))
                  else None)
           in (case authErr of
                 Some err \<Rightarrow> AuthFailed err
               | None \<Rightarrow>
                   if Proxy.isClusterMode p
                   then Relayed (handleClusterConnection p maps (serverBytes env))
                   else Relayed (handleSimpleConnection (serverBytes env))))"

section \<open>The proxy manager\<close>

text \<open>
  The errors of \<open>DiscoverClusterTopology\<close>. That function talks to the remote over the
  discovery connection; what it returns, one of these errors or the nodes that
  \<open>parseClusterNodes\<close> made of the data read, is given to the manager's model from outside.
\<close>

datatype TopologyError =
    FailedToSendClusterNodesCommand
  | FailedToReadResponseType
  | NotAClusterInstance string
  | UnexpectedResponseType char
  | FailedToReadLength
  | InvalidLengthFormat string
  | FailedToReadData

datatype ManagerError =
    FailedToParseCACertificate
  | FailedToCreateIAMTokenProvider
  | FailedToListen string
  | FailedToConnectToPrimary
  | PasswordAuthenticationFailed AuthError
  | IAMAuthenticationFailed AuthError
  | FailedToDiscoverClusterTopology TopologyError
  | NoClusterNodesFound

record Manager =
  config :: Config
  proxies :: "Proxy list"
  tokenSource :: "IAMTokenProvider option"
  authPassword :: string
  authorizationMode :: string
  tlsConfig :: "TLSConfig option"
  nodeMap :: mapref
  isClusterMode :: bool

text \<open>The manager together with the store that holds the map objects.\<close>

record State =
  mgr :: Manager
  maps :: mapstore

text \<open>\<open>NewManager\<close>: \<open>make(map[string]string)\<close> is the first map of the store, empty.\<close>

definition NewManager :: "Config \<Rightarrow> State" where
  "NewManager cfg =
     \<lparr>mgr = \<lparr>config = cfg, proxies = [], tokenSource = None, authPassword = [],
              authorizationMode = [], tlsConfig = None, nodeMap = 0, isClusterMode = False\<rparr>,
      maps = (\<lambda>r. Map.empty)\<rparr>"

text \<open>\<open>SetTLSConfig\<close>; \<open>pemOK\<close> is the result of \<open>AppendCertsFromPEM\<close>.\<close>

definition SetTLSConfig :: "State \<Rightarrow> string \<Rightarrow> bool \<Rightarrow> bool \<Rightarrow> ManagerError option \<times> State" where
  "SetTLSConfig s caCert skipVerify pemOK =
     (if caCert \<noteq> [] then
        (if \<not> pemOK then (Some FailedToParseCACertificate, s)
         else (None, s\<lparr>mgr := (mgr s)\<lparr>tlsConfig :=
                 Some \<lparr>RootCAs = Some caCert, InsecureSkipVerify = skipVerify\<rparr>\<rparr>\<rparr>))
      else (None, s\<lparr>mgr := (mgr s)\<lparr>tlsConfig :=
                 Some \<lparr>RootCAs = None, InsecureSkipVerify = skipVerify\<rparr>\<rparr>\<rparr>))"

definition SetAuthPassword :: "State \<Rightarrow> string \<Rightarrow> State" where
  "SetAuthPassword s password = s\<lparr>mgr := (mgr s)\<lparr>authPassword := password\<rparr>\<rparr>"

definition SetAuthorizationMode :: "State \<Rightarrow> string \<Rightarrow> State" where
  "SetAuthorizationMode s mode = s\<lparr>mgr := (mgr s)\<lparr>authorizationMode := mode\<rparr>\<rparr>"

text \<open>\<open>Proxy.Start\<close>; \<open>bindOK\<close> is whether \<open>net.Listen\<close> succeeds.\<close>

definition Start :: "Proxy \<Rightarrow> bool \<Rightarrow> ManagerError option \<times> Proxy" where
  "Start p bindOK =
     (if \<not> bindOK then (Some (FailedToListen (Proxy.localAddr p)), p)
      else (None, p\<lparr>listener := True\<rparr>))"

text \<open>
  \<open>AddProxy\<close>; \<open>providerOK\<close> is whether \<open>auth.NewIAMTokenProvider\<close> succeeds. The
  proxy gets the manager's \<open>isClusterMode\<close> as it is now, and the manager's map object.
\<close>

definition AddProxy ::
  "State \<Rightarrow> Endpoint \<Rightarrow> int \<Rightarrow> bool \<Rightarrow> bool \<Rightarrow> ManagerError option \<times> State" where
  "AddProxy s ep localPort providerOK bindOK =
     (let m = mgr s;
          needProvider = (authorizationMode m = ''IAM_AUTH'' \<and> authPassword m = []
                          \<and> tokenSource m = None)
      in if needProvider \<and> \<not> providerOK then (Some FailedToCreateIAMTokenProvider, s)
         else
           let m = (if needProvider then m\<lparr>tokenSource := Some IAMTokenProvider\<rparr> else m);
               local = LocalAddr (config m) @ '':'' @ Itoa localPort;
               remote = Host ep @ '':'' @ Itoa (EndpointPort ep);
               proxy = \<lparr>localAddr = local, remoteAddr = remote, endpoint = ep,
                        listener = False, config = config m, tokenSource = tokenSource m,
                        authPassword = authPassword m, tlsConfig = tlsConfig m,
                        isClusterMode = isClusterMode m, nodeMap = nodeMap m,
                        shutdown = False\<rparr>
           in (case Start proxy bindOK of
                 (Some err, proxy') \<Rightarrow> (Some err, s\<lparr>mgr := m\<rparr>)
               | (None, proxy') \<Rightarrow>
                   (None,
                    \<lparr>mgr = m\<lparr>proxies := proxies m @ [proxy']\<rparr>,
                     maps = (maps s)(nodeMap m := ((maps s) (nodeMap m))(remote \<mapsto> local))\<rparr>)))"

text \<open>\<open>Proxy.Shutdown\<close>, once: the channel and the listener are closed.\<close>

definition ProxyShutdown :: "Proxy \<Rightarrow> Proxy" where
  "ProxyShutdown p = (if shutdown p then p else p\<lparr>shutdown := True\<rparr>)"

definition Shutdown :: "State \<Rightarrow> State" where
  "Shutdown s = s\<lparr>mgr := (mgr s)\<lparr>proxies := map ProxyShutdown (proxies (mgr s))\<rparr>\<rparr>"

text \<open>\<open>net.JoinHostPort\<close>: a host with a colon is put in brackets.\<close>

definition JoinHostPort :: "string \<Rightarrow> string \<Rightarrow> string" where
  "JoinHostPort host port =
     (if CHR '':'' \<in> set host then ''['' @ host @ '']:'' @ port else host @ '':'' @ port)"

text \<open>\<open>extractHost\<close>: the address before its last colon.\<close>

definition extractHost :: "string \<Rightarrow> string" where
  "extractHost address =
     (if CHR '':'' \<in> set address
      then rev (tl (dropWhile (\<lambda>c. c \<noteq> CHR '':'') (rev address)))
      else address)"

text \<open>
  What \<open>DiscoverAndAddClusterNodes\<close> meets: whether the dial of the primary succeeds, the
  remote's behaviour during authentication, the token source's answer, the result of
  \<open>DiscoverClusterTopology\<close> on the connection, and for the \<open>i\<close>-th new node whether
  the token provider can be created and whether its port can be bound.
\<close>

record DiscoverEnv =
  primaryDialOK :: bool
  primaryConn :: Conn
  primaryToken :: "string option"
  topology :: "TopologyError + ClusterNode list"
  providerOKs :: "nat \<Rightarrow> bool"
  bindOKs :: "nat \<Rightarrow> bool"

text \<open>
  The loop over the new nodes, at index \<open>i\<close>: a node whose proxy cannot be added is
  skipped. The lock that the source releases around \<open>AddProxy\<close> is not modelled.
\<close>

fun addClusterProxies ::
  "State \<Rightarrow> ClusterNode list \<Rightarrow> nat \<Rightarrow> int \<Rightarrow> DiscoverEnv \<Rightarrow> int \<Rightarrow> int \<times> State" where
  "addClusterProxies s [] i startPort env addedCount = (addedCount, s)"
| "addClusterProxies s (node # nodes) i startPort env addedCount =
     (let localPort = startPort + int i;
          ep = \<lparr>Host = extractHost (Address node), EndpointPort = Port node,
                EndpointType = ''cluster-'' @ Role node\<rparr>
      in (case AddProxy s ep localPort (providerOKs env i) (bindOKs env i) of
            (Some err, s') \<Rightarrow> addClusterProxies s' nodes (Suc i) startPort env addedCount
          | (None, s') \<Rightarrow> addClusterProxies s' nodes (Suc i) startPort env (addedCount + 1)))"

definition DiscoverAndAddClusterNodes ::
  "State \<Rightarrow> Endpoint \<Rightarrow> int \<Rightarrow> DiscoverEnv \<Rightarrow> int \<times> ManagerError option \<times> State" where
  "DiscoverAndAddClusterNodes s primaryEndpoint startPort env =
     (let m = mgr s;
          remote = JoinHostPort (Host primaryEndpoint) (Itoa (EndpointPort primaryEndpoint))
      in if \<not> primaryDialOK env then (0, Some FailedToConnectToPrimary, s)
         else
           let authErr =
                 (if authPassword m \<noteq> [] then
                    map_option PasswordAuthenticationFailed
                      (snd (authenticatePasswordOnConn (primaryConn env) (authPassword m)))
                  else if tokenSource m \<noteq> None then
                    map_option IAMAuthenticationFailed
                      (snd (authenticateIAMOnConn (primaryConn env) (primaryToken env)))
                  else None)
           in (case authErr of
                 Some err \<Rightarrow> (0, Some err, s)
               | None \<Rightarrow>
                   (case topology env of
                      Inl err \<Rightarrow> (0, Some (FailedToDiscoverClusterTopology err), s)
                    | Inr nodes \<Rightarrow>
                        if length nodes = 0 then (0, Some NoClusterNodesFound, s)
                        else
                          let newNodes = FilterUniqueNodes nodes remote
                          in if length newNodes = 0 then (0, None, s)
                             else
                               let s1 = s\<lparr>mgr := m\<lparr>isClusterMode := True\<rparr>\<rparr>;
                                   (addedCount, s2) = addClusterProxies s1 newNodes 0 startPort env 0
                               in (addedCount, None, s2))))"

text \<open>The states a manager can be in: made by \<open>NewManager\<close>, then any of its methods.\<close>

inductive reachable :: "State \<Rightarrow> bool" where
  reachable_new: "reachable (NewManager cfg)"
| reachable_tls: "reachable s \<Longrightarrow> reachable (snd (SetTLSConfig s caCert skipVerify pemOK))"
| reachable_password: "reachable s \<Longrightarrow> reachable (SetAuthPassword s password)"
| reachable_mode: "reachable s \<Longrightarrow> reachable (SetAuthorizationMode s mode)"
| reachable_add: "reachable s \<Longrightarrow> reachable (snd (AddProxy s ep localPort providerOK bindOK))"
| reachable_discover:
    "reachable s \<Longrightarrow> reachable (snd (snd (DiscoverAndAddClusterNodes s primaryEndpoint startPort env)))"
| reachable_shutdown: "reachable s \<Longrightarrow> reachable (Shutdown s)"

section \<open>A cluster of two nodes behind one manager\<close>

text \<open>
  The scenario of the specification: a manager on \<open>127.0.0.1\<close> with a proxy for the
  primary \<open>10.0.0.1:6379\<close> on port 6379, then discovery, which finds the primary itself
  and the peer \<open>10.0.0.2:6379\<close> and gives the peer the port 6380.
\<close>

definition scenarioConfig :: Config where
  "scenarioConfig = \<lparr>LocalAddr = ''127.0.0.1''\<rparr>"

definition scenarioPrimary :: Endpoint where
  "scenarioPrimary = \<lparr>Host = ''10.0.0.1'', EndpointPort = 6379, EndpointType = ''primary''\<rparr>"

definition scenarioNodes :: "ClusterNode list" where
  "scenarioNodes =
     [\<lparr>ID = ''a1'', Address = ''10.0.0.1:6379'', Port = 6379, Flags = ''myself,master'', Role = ''master''\<rparr>,
      \<lparr>ID = ''b2'', Address = ''10.0.0.2:6379'', Port = 6379, Flags = ''master'', Role = ''master''\<rparr>]"

definition scenarioDiscoverEnv :: DiscoverEnv where
  "scenarioDiscoverEnv =
     \<lparr>primaryDialOK = True,
      primaryConn = \<lparr>writeFails = False, readResult = Some (''+OK'' @ [CR, LF])\<rparr>,
      primaryToken = None,
      topology = Inr scenarioNodes,
      providerOKs = (\<lambda>i. True),
      bindOKs = (\<lambda>i. True)\<rparr>"

definition scenarioBeforeDiscovery :: State where
  "scenarioBeforeDiscovery = snd (AddProxy (NewManager scenarioConfig) scenarioPrimary 6379 True True)"

definition scenarioAfterDiscovery :: State where
  "scenarioAfterDiscovery =
     snd (snd (DiscoverAndAddClusterNodes scenarioBeforeDiscovery scenarioPrimary 6380 scenarioDiscoverEnv))"

text \<open>A connection on which the remote answers a command with a redirect to the peer.\<close>

definition scenarioRedirect :: ConnEnv where
  "scenarioRedirect =
     \<lparr>dialOK = True,
      authConn = \<lparr>writeFails = False, readResult = Some (''+OK'' @ [CR, LF])\<rparr>,
      tokenResult = None,
      serverBytes = ''-MOVED 3999 10.0.0.2:6379'' @ [CR, LF]\<rparr>"

text \<open>The map that the instances of a list would have if each had its own entry, later ones first.\<close>

definition entriesOf :: "Proxy list \<Rightarrow> (string \<rightharpoonup> string)" where
  "entriesOf ps = map_of (rev (map (\<lambda>p. (Proxy.remoteAddr p, Proxy.localAddr p)) ps))"

text \<open>
  The relation between the node map and the instances that is kept by every method of the
  manager: the map object of the manager holds exactly the entries of its instances, and
  every instance holds a bound listener.
\<close>

definition node_map_inv :: "State \<Rightarrow> bool" where
  "node_map_inv s =
     (maps s (nodeMap (mgr s)) = entriesOf (proxies (mgr s))
      \<and> list_all listener (proxies (mgr s)))"

text \<open>The same remote endpoint added a second time, on the next port.\<close>

definition scenarioDuplicate :: State where
  "scenarioDuplicate = snd (AddProxy scenarioBeforeDiscovery scenarioPrimary 6380 True True)"

text \<open>A connection whose remote answers the AUTH command with the given bytes, then a PONG.\<close>

definition authScenario :: "string \<Rightarrow> ConnEnv" where
  "authScenario reply =
     \<lparr>dialOK = True,
      authConn = \<lparr>writeFails = False, readResult = Some reply\<rparr>,
      tokenResult = Some ''token'',
      serverBytes = ''+PONG'' @ [CR, LF]\<rparr>"

definition passwordProxy :: Proxy where
  "passwordProxy =
     \<lparr>localAddr = ''127.0.0.1:6379'', remoteAddr = ''10.0.0.1:6379'', endpoint = scenarioPrimary,
      listener = True, config = scenarioConfig, tokenSource = None, authPassword = ''secret'',
      tlsConfig = None, isClusterMode = False, nodeMap = 0, shutdown = False\<rparr>"


section \<open>Properties of the decimal conversions and of the codec\<close>

lemma isDigit_digitChar: "d < 10 \<Longrightarrow> isDigit (digitChar d)"
  by (simp add: isDigit_def digitChar_def)

lemma of_char_digitChar: "d < 10 \<Longrightarrow> (of_char (digitChar d) :: nat) - 48 = d"
  by (simp add: digitChar_def)

lemma formatUint_digits: "c \<in> set (formatUint n) \<Longrightarrow> isDigit c"
proof (induction n arbitrary: c rule: formatUint.induct)
  case (1 n)
  show ?case
  proof (cases "n < 10")
    case True
    with "1.prems" show ?thesis
      by (simp add: formatUint.simps[of n] isDigit_digitChar)
  next
    case False
    with "1.prems" "1.IH" show ?thesis
      by (auto simp: formatUint.simps[of n] isDigit_digitChar)
  qed
qed

lemma formatUint_nonempty: "formatUint n \<noteq> []"
  by (subst formatUint.simps) simp

lemma parseDigits_append:
  "parseDigits m (xs @ ys) = (case parseDigits m xs of None \<Rightarrow> None | Some k \<Rightarrow> parseDigits k ys)"
  by (induction xs arbitrary: m) auto

lemma parseDigits_formatUint: "parseDigits 0 (formatUint n) = Some n"
proof (induction n rule: formatUint.induct)
  case (1 n)
  show ?case
  proof (cases "n < 10")
    case True
    then show ?thesis
      by (simp add: formatUint.simps[of n] isDigit_digitChar of_char_digitChar)
  next
    case False
    with "1.IH" have "parseDigits 0 (formatUint (n div 10)) = Some (n div 10)" by simp
    with False show ?thesis
      by (simp add: formatUint.simps[of n] parseDigits_append isDigit_digitChar of_char_digitChar)
  qed
qed

lemma isDigit_not_sign: "isDigit c \<Longrightarrow> c \<noteq> CHR ''-'' \<and> c \<noteq> CHR ''+'' \<and> c \<noteq> LF \<and> c \<noteq> CR"
  by (auto simp: isDigit_def)

lemma ParseInt_FormatInt:
  assumes "min_int \<le> i" and "i \<le> max_int"
  shows "ParseInt (FormatInt i) = Some i"
proof (cases "i < 0")
  case True
  with assms show ?thesis
    using formatUint_nonempty[of "nat (- i)"] parseDigits_formatUint[of "nat (- i)"]
    by (simp add: ParseInt_def FormatInt_def min_int_def)
next
  case False
  obtain c cs where f: "formatUint (nat i) = c # cs"
    using formatUint_nonempty[of "nat i"] by (cases "formatUint (nat i)") auto
  then have "isDigit c" using formatUint_digits[of c "nat i"] by simp
  then have "c \<noteq> CHR ''-''" "c \<noteq> CHR ''+''" using isDigit_not_sign by auto
  with False assms f parseDigits_formatUint[of "nat i"] show ?thesis
    by (simp add: ParseInt_def FormatInt_def max_int_def)
qed

lemma FormatInt_no_LF: "LF \<notin> set (FormatInt i)"
  using formatUint_digits isDigit_not_sign by (auto simp: FormatInt_def)

lemma readLine_CRLF:
  assumes "LF \<notin> set s"
  shows "readLine (s @ CR # LF # rest) = Inr (s, rest)"
proof -
  from assms have tw: "takeWhile (\<lambda>c. c \<noteq> LF) (s @ CR # LF # rest) = s @ [CR]"
    by (induction s) auto
  from assms have dw: "dropWhile (\<lambda>c. c \<noteq> LF) (s @ CR # LF # rest) = LF # rest"
    by (induction s) auto
  show ?thesis
    by (simp add: readLine_def tw dw nth_append)
qed

lemma Atoi_Itoa_length: "int n \<le> max_int \<Longrightarrow> Atoi (Itoa (int n)) = Some (int n)"
  by (simp add: Atoi_def Itoa_def ParseInt_FormatInt min_int_def)

lemma Itoa_no_LF: "LF \<notin> set (Itoa i)"
  by (simp add: Itoa_def FormatInt_no_LF)

lemma Atoi_minus_one: "Atoi ''-1'' = Some (- 1)"
  by (simp add: Atoi_def ParseInt_def isDigit_def)

lemma readLine_minus_one: "readLine (CHR ''-'' # CHR ''1'' # CR # LF # rest) = Inr (''-1'', rest)"
  using readLine_CRLF[of "''-1''" rest] by simp

lemma maxAlloc_le_max_int: "i \<le> maxAlloc \<Longrightarrow> i \<le> max_int"
  by (simp add: maxAlloc_def max_int_def)

lemma readBulkString_wire:
  assumes "int (length str) + 2 \<le> maxAlloc"
  shows "readBulkString (Itoa (int (length str)) @ CR # LF # str @ CR # LF # rest)
           = Inr (RESPValue BulkString str 0 [] False, rest)"
proof -
  have rl: "readLine (Itoa (int (length str)) @ CR # LF # str @ CR # LF # rest)
              = Inr (Itoa (int (length str)), str @ CR # LF # rest)"
    by (rule readLine_CRLF) (rule Itoa_no_LF)
  from assms have mi: "int (length str) + 2 \<le> max_int"
    by (rule maxAlloc_le_max_int)
  then have at: "Atoi (Itoa (int (length str))) = Some (int (length str))"
    by (intro Atoi_Itoa_length) simp
  from assms mi show ?thesis
    by (simp add: readBulkString_def rl at nth_append)
qed

lemma readArrayElems_wire:
  assumes "\<And>x rest. x \<in> set arr \<Longrightarrow> ReadValue (Serialize x @ rest) = Inr (parsed x, rest)"
  shows "readArrayElems (length arr) (concat (map Serialize arr) @ rest) = Inr (map parsed arr, rest)"
  using assms by (induction arr) simp_all

lemma ReadValue_Serialize:
  "constructible v \<Longrightarrow> ReadValue (Serialize v @ rest) = Inr (parsed v, rest)"
proof (induction v arbitrary: rest)
  case (RESPValue t str i arr null)
  consider (ss) "t = SimpleString" | (er) "t = Error" | (int) "t = Integer"
    | (bulk) "t = BulkString" | (arr) "t = ArrayT"
    using RESPValue.prems by (auto split: if_splits)
  then show ?case
  proof cases
    case ss
    with RESPValue.prems show ?thesis
      by (simp add: readSimpleString_def readLine_CRLF)
  next
    case er
    with RESPValue.prems show ?thesis
      by (simp add: readError_def readLine_CRLF)
  next
    case int
    have "ParseInt (FormatInt (sint i)) = Some (sint i)"
      using sint_range_size[of i] sint_lt[of i] sint_ge[of i]
      by (intro ParseInt_FormatInt) (simp_all add: min_int_def max_int_def word_size)
    with int show ?thesis
      by (simp add: readInteger_def readLine_CRLF FormatInt_no_LF)
  next
    case bulk
    show ?thesis
    proof (cases null)
      case True
      with bulk show ?thesis
        by (simp add: readBulkString_def readLine_minus_one Atoi_minus_one)
    next
      case False
      with bulk RESPValue.prems show ?thesis
        using readBulkString_wire[of str rest] by simp
    qed
  next
    case arr
    show ?thesis
    proof (cases null)
      case True
      with arr show ?thesis
        by (simp add: readLine_minus_one Atoi_minus_one)
    next
      case False
      with arr RESPValue.prems have cap: "int (length arr) * sizeofRESPValue \<le> maxAlloc"
        and all: "\<And>x. x \<in> set arr \<Longrightarrow> constructible x"
        by (auto simp: list_all_iff)
      from cap have len: "int (length arr) \<le> max_int"
        by (simp add: sizeofRESPValue_def maxAlloc_def max_int_def)
      have el: "readArrayElems (length arr) (concat (map Serialize arr) @ rest) = Inr (map parsed arr, rest)"
        by (rule readArrayElems_wire) (use RESPValue.IH all in blast)
      from arr False len cap el show ?thesis
        by (simp add: readLine_CRLF Itoa_no_LF Atoi_Itoa_length)
    qed
  qed
qed

lemma Serialize_parsed: "Serialize (parsed v) = Serialize v"
  by (induction v) (auto intro!: arg_cong[where f = concat])

lemma HasPrefix_iff: "HasPrefix s pre \<longleftrightarrow> (\<exists>rest. s = pre @ rest)"
proof
  assume "HasPrefix s pre"
  then have "s = pre @ drop (length pre) s"
    by (metis HasPrefix_def append_take_drop_id)
  then show "\<exists>rest. s = pre @ rest" ..
next
  assume "\<exists>rest. s = pre @ rest"
  then show "HasPrefix s pre" by (auto simp: HasPrefix_def)
qed

lemma Fields_moved_example:
  "Fields ''MOVED 3999 10.128.0.5:6379'' = [''MOVED'', ''3999'', ''10.128.0.5:6379'']"
  by (simp add: Fields_def spaceWidth_def asciiSpace_def unicodeSpaces_def)

lemma Contains_iff_sublist: "Contains s sub \<longleftrightarrow> sublist sub s"
proof (induction s)
  case Nil
  then show ?case by simp
next
  case (Cons c cs)
  have "HasPrefix (c # cs) sub \<longleftrightarrow> prefix sub (c # cs)"
    by (simp add: HasPrefix_iff prefix_def)
  with Cons show ?case
    by (simp add: sublist_Cons_right)
qed

lemma strip_at: "(if c \<in> set s then takeWhile (\<lambda>x. x \<noteq> c) s else s) = takeWhile (\<lambda>x. x \<noteq> c) s"
  by (induction s) auto

lemma takeWhile_twice:
  "takeWhile (\<lambda>x. x \<noteq> b) (takeWhile (\<lambda>x. x \<noteq> a) s) = takeWhile (\<lambda>x. x \<noteq> a \<and> x \<noteq> b) s"
  by (induction s) auto

lemma parseNodeLine_wellformed:
  assumes "8 \<le> length (Fields (TrimSpace line))"
  shows "\<exists>node. parseNodeLine line = Some node
           \<and> ID node = Fields (TrimSpace line) ! 0
           \<and> Address node = takeWhile (\<lambda>c. c \<noteq> CHR ''@'' \<and> c \<noteq> CHR '','') (Fields (TrimSpace line) ! 1)
           \<and> Flags node = Fields (TrimSpace line) ! 2
           \<and> Role node = (if sublist ''master'' (Fields (TrimSpace line) ! 2) then ''master'' else ''slave'')"
proof -
  from assms have ne: "TrimSpace line \<noteq> []"
    by (auto simp: Fields_def)
  from assms have ge: "\<not> length (Fields (TrimSpace line)) < 8" by simp
  show ?thesis
    by (simp add: parseNodeLine_def ne ge Let_def Contains_iff_sublist strip_at takeWhile_twice)
qed

lemma example_line_fields:
  "Fields ''07c3...91 127.0.0.1:30004@31004 slave e7d1... 0 1426238317239 4 connected''
     = [''07c3...91'', ''127.0.0.1:30004@31004'', ''slave'', ''e7d1...'', ''0'',
        ''1426238317239'', ''4'', ''connected'']"
  by (simp add: Fields_def spaceWidth_def asciiSpace_def unicodeSpaces_def)

lemma example_line_trim:
  "TrimSpace ''07c3...91 127.0.0.1:30004@31004 slave e7d1... 0 1426238317239 4 connected''
     = ''07c3...91 127.0.0.1:30004@31004 slave e7d1... 0 1426238317239 4 connected''"
  by (simp add: TrimSpace_def trimLeft.simps trimRight.simps spaceWidth_def trailingSpaceWidth_def
      asciiSpace_def unicodeSpaces_def)

lemma example_line_split:
  "Split ''07c3...91 127.0.0.1:30004@31004 slave e7d1... 0 1426238317239 4 connected'' LF
     = [''07c3...91 127.0.0.1:30004@31004 slave e7d1... 0 1426238317239 4 connected'']"
  by simp

lemma auth_check_prefix:
  "(length r \<ge> 5 \<and> take 5 r = ''+OK'' @ [CR, LF]) \<longleftrightarrow> prefix (''+OK'' @ [CR, LF]) r"
proof
  assume "length r \<ge> 5 \<and> take 5 r = ''+OK'' @ [CR, LF]"
  then have "r = (''+OK'' @ [CR, LF]) @ drop 5 r"
    by (metis append_take_drop_id)
  then show "prefix (''+OK'' @ [CR, LF]) r"
    by (metis prefixI)
next
  assume "prefix (''+OK'' @ [CR, LF]) r"
  then obtain zs where "r = (''+OK'' @ [CR, LF]) @ zs"
    by (auto simp: prefix_def)
  then show "length r \<ge> 5 \<and> take 5 r = ''+OK'' @ [CR, LF]"
    by simp
qed

lemma digitChar_values:
  "digitChar 0 = CHR ''0''" "digitChar 1 = CHR ''1''" "digitChar 2 = CHR ''2''"
  "digitChar 3 = CHR ''3''" "digitChar 4 = CHR ''4''" "digitChar 5 = CHR ''5''"
  "digitChar 6 = CHR ''6''" "digitChar 7 = CHR ''7''" "digitChar 8 = CHR ''8''"
  "digitChar 9 = CHR ''9''"
  by (simp_all add: digitChar_def char_of_def bit_0)

lemma Itoa_6379: "Itoa 6379 = ''6379''"
  by (simp add: Itoa_def FormatInt_def formatUint.simps digitChar_values)

lemma Itoa_6380: "Itoa 6380 = ''6380''"
  by (simp add: Itoa_def FormatInt_def formatUint.simps digitChar_values)

lemma scenarioBeforeDiscovery_eq:
  "scenarioBeforeDiscovery =
     \<lparr>mgr = \<lparr>config = scenarioConfig,
              proxies = [\<lparr>localAddr = ''127.0.0.1:6379'', remoteAddr = ''10.0.0.1:6379'',
                          endpoint = scenarioPrimary, listener = True, config = scenarioConfig,
                          tokenSource = None, authPassword = [], tlsConfig = None,
                          isClusterMode = False, nodeMap = 0, shutdown = False\<rparr>],
              tokenSource = None, authPassword = [], authorizationMode = [], tlsConfig = None,
              nodeMap = 0, isClusterMode = False\<rparr>,
      maps = (\<lambda>r. Map.empty)(0 := [''10.0.0.1:6379'' \<mapsto> ''127.0.0.1:6379''])\<rparr>"
  by (simp add: scenarioBeforeDiscovery_def AddProxy_def NewManager_def Start_def Let_def
      scenarioConfig_def scenarioPrimary_def Itoa_6379)

lemma scenario_new_nodes:
  "FilterUniqueNodes scenarioNodes (JoinHostPort (Host scenarioPrimary) (Itoa (EndpointPort scenarioPrimary)))
     = [\<lparr>ID = ''b2'', Address = ''10.0.0.2:6379'', Port = 6379, Flags = ''master'', Role = ''master''\<rparr>]"
  by (simp add: FilterUniqueNodes_def scenarioNodes_def JoinHostPort_def scenarioPrimary_def
      Itoa_6379 HasPrefix_def)

lemma scenarioNodes_nonempty: "scenarioNodes \<noteq> []"
  by (simp add: scenarioNodes_def)

lemma scenarioAfterDiscovery_eq:
  "scenarioAfterDiscovery =
     \<lparr>mgr = \<lparr>config = scenarioConfig,
              proxies = [\<lparr>localAddr = ''127.0.0.1:6379'', remoteAddr = ''10.0.0.1:6379'',
                          endpoint = scenarioPrimary, listener = True, config = scenarioConfig,
                          tokenSource = None, authPassword = [], tlsConfig = None,
                          isClusterMode = False, nodeMap = 0, shutdown = False\<rparr>,
                         \<lparr>localAddr = ''127.0.0.1:6380'', remoteAddr = ''10.0.0.2:6379'',
                          endpoint = \<lparr>Host = ''10.0.0.2'', EndpointPort = 6379,
                                       EndpointType = ''cluster-master''\<rparr>,
                          listener = True, config = scenarioConfig,
                          tokenSource = None, authPassword = [], tlsConfig = None,
                          isClusterMode = True, nodeMap = 0, shutdown = False\<rparr>],
              tokenSource = None, authPassword = [], authorizationMode = [], tlsConfig = None,
              nodeMap = 0, isClusterMode = True\<rparr>,
      maps = (\<lambda>r. Map.empty)(0 := [''10.0.0.1:6379'' \<mapsto> ''127.0.0.1:6379'',
                                       ''10.0.0.2:6379'' \<mapsto> ''127.0.0.1:6380''])\<rparr>"
  by (simp add: scenarioAfterDiscovery_def DiscoverAndAddClusterNodes_def scenarioDiscoverEnv_def
      scenario_new_nodes scenarioBeforeDiscovery_eq scenarioNodes_nonempty Let_def
      AddProxy_def Start_def extractHost_def scenarioConfig_def Itoa_6379 Itoa_6380)

lemma scenario_discovery_result:
  "fst (DiscoverAndAddClusterNodes scenarioBeforeDiscovery scenarioPrimary 6380 scenarioDiscoverEnv) = 1
   \<and> fst (snd (DiscoverAndAddClusterNodes scenarioBeforeDiscovery scenarioPrimary 6380 scenarioDiscoverEnv)) = None"
  by (simp add: DiscoverAndAddClusterNodes_def scenarioDiscoverEnv_def
      scenario_new_nodes scenarioBeforeDiscovery_eq scenarioNodes_nonempty Let_def
      AddProxy_def Start_def extractHost_def scenarioConfig_def Itoa_6379 Itoa_6380)

lemma Fields_moved_scenario:
  "Fields ''MOVED 3999 10.0.0.2:6379'' = [''MOVED'', ''3999'', ''10.0.0.2:6379'']"
  by (simp add: Fields_def spaceWidth_def asciiSpace_def unicodeSpaces_def)

lemma scenario_cluster_relay:
  "proxyServerResponses [''10.0.0.1:6379'' \<mapsto> ''127.0.0.1:6379'', ''10.0.0.2:6379'' \<mapsto> ''127.0.0.1:6380'']
     (''-MOVED 3999 10.0.0.2:6379'' @ [CR, LF])
   = (''-MOVED 3999 127.0.0.1:6380'' @ [CR, LF], EOF)"
  by (simp add: proxyServerResponses.simps[of _ "CHR ''-'' # _"] proxyServerResponses.simps[of _ "[]"]
      readError_def readLine_def IsRedirectError_def HasPrefix_def RewriteRedirectError_def
      Fields_moved_scenario set_Str_def Let_def)

lemma entriesOf_snoc:
  "entriesOf (ps @ [p]) = (entriesOf ps)(Proxy.remoteAddr p \<mapsto> Proxy.localAddr p)"
  by (simp add: entriesOf_def)

lemma entriesOf_dom: "dom (entriesOf ps) = Proxy.remoteAddr ` set ps"
  by (simp add: entriesOf_def dom_map_of_conv_image_fst image_image)

lemma entriesOf_Some:
  "entriesOf ps remote = Some local \<Longrightarrow>
     \<exists>p. p \<in> set ps \<and> Proxy.remoteAddr p = remote \<and> Proxy.localAddr p = local"
  by (auto simp: entriesOf_def dest!: map_of_SomeD)

lemma entriesOf_last:
  "p \<in> set ps \<Longrightarrow>
     entriesOf ps (Proxy.remoteAddr p)
       = Some (Proxy.localAddr (last (filter (\<lambda>q. Proxy.remoteAddr q = Proxy.remoteAddr p) ps)))"
proof (induction ps rule: rev_induct)
  case Nil
  then show ?case by simp
next
  case (snoc q qs)
  show ?case
  proof (cases "Proxy.remoteAddr q = Proxy.remoteAddr p")
    case True
    then show ?thesis by (simp add: entriesOf_snoc)
  next
    case False
    with snoc.prems have "p \<in> set qs" by auto
    with snoc.IH False show ?thesis by (simp add: entriesOf_snoc)
  qed
qed

lemma entriesOf_distinct:
  assumes "distinct (map Proxy.remoteAddr ps)" and "p \<in> set ps"
  shows "entriesOf ps (Proxy.remoteAddr p) = Some (Proxy.localAddr p)"
proof -
  from assms(1) have "distinct (map fst (rev (map (\<lambda>p. (Proxy.remoteAddr p, Proxy.localAddr p)) ps)))"
    by (simp add: rev_map[symmetric] comp_def)
  moreover from assms(2) have "(Proxy.remoteAddr p, Proxy.localAddr p)
      \<in> set (rev (map (\<lambda>p. (Proxy.remoteAddr p, Proxy.localAddr p)) ps))"
    by auto
  ultimately show ?thesis
    unfolding entriesOf_def by (rule map_of_is_SomeI)
qed

lemma AddProxy_bind_failure:
  "fst (AddProxy s ep localPort providerOK False) \<noteq> None
   \<and> proxies (mgr (snd (AddProxy s ep localPort providerOK False))) = proxies (mgr s)
   \<and> nodeMap (mgr (snd (AddProxy s ep localPort providerOK False))) = nodeMap (mgr s)
   \<and> maps (snd (AddProxy s ep localPort providerOK False)) = maps s"
  by (simp add: AddProxy_def Start_def Let_def)

lemma AddProxy_result:
  "(fst (AddProxy s ep localPort providerOK bindOK) \<noteq> None
      \<and> proxies (mgr (snd (AddProxy s ep localPort providerOK bindOK))) = proxies (mgr s)
      \<and> nodeMap (mgr (snd (AddProxy s ep localPort providerOK bindOK))) = nodeMap (mgr s)
      \<and> maps (snd (AddProxy s ep localPort providerOK bindOK)) = maps s)
   \<or> (fst (AddProxy s ep localPort providerOK bindOK) = None \<and> bindOK
      \<and> (\<exists>p. proxies (mgr (snd (AddProxy s ep localPort providerOK bindOK))) = proxies (mgr s) @ [p]
            \<and> listener p
            \<and> Proxy.remoteAddr p = Host ep @ '':'' @ Itoa (EndpointPort ep)
            \<and> Proxy.localAddr p = LocalAddr (config (mgr s)) @ '':'' @ Itoa localPort
            \<and> Proxy.isClusterMode p = isClusterMode (mgr s)
            \<and> Proxy.nodeMap p = nodeMap (mgr s)
            \<and> maps (snd (AddProxy s ep localPort providerOK bindOK))
                = (maps s)(nodeMap (mgr s) :=
                     (maps s (nodeMap (mgr s)))(Proxy.remoteAddr p \<mapsto> Proxy.localAddr p)))
      \<and> nodeMap (mgr (snd (AddProxy s ep localPort providerOK bindOK))) = nodeMap (mgr s))"
  by (cases bindOK) (simp_all add: AddProxy_def Start_def Let_def)

lemma node_map_inv_AddProxy:
  assumes "node_map_inv s"
  shows "node_map_inv (snd (AddProxy s ep localPort providerOK bindOK))"
  using assms AddProxy_result[of s ep localPort providerOK bindOK]
  by (auto simp: node_map_inv_def entriesOf_snoc)

lemma node_map_inv_addClusterProxies:
  "node_map_inv s \<Longrightarrow> node_map_inv (snd (addClusterProxies s nodes i startPort env addedCount))"
proof (induction nodes arbitrary: s i addedCount)
  case Nil
  then show ?case by simp
next
  case (Cons node nodes)
  let ?r = "AddProxy s \<lparr>Host = extractHost (Address node), EndpointPort = Port node,
                EndpointType = ''cluster-'' @ Role node\<rparr> (startPort + int i)
              (providerOKs env i) (bindOKs env i)"
  from Cons.prems have inv': "node_map_inv (snd ?r)"
    by (rule node_map_inv_AddProxy)
  show ?case
  proof (cases "fst ?r")
    case None
    then have "addClusterProxies s (node # nodes) i startPort env addedCount
          = addClusterProxies (snd ?r) nodes (Suc i) startPort env (addedCount + 1)"
      by (cases ?r) (simp add: Let_def)
    with Cons.IH[OF inv'] show ?thesis by simp
  next
    case (Some err)
    then have "addClusterProxies s (node # nodes) i startPort env addedCount
          = addClusterProxies (snd ?r) nodes (Suc i) startPort env addedCount"
      by (cases ?r) (simp add: Let_def)
    with Cons.IH[OF inv'] show ?thesis by simp
  qed
qed

lemma node_map_inv_cluster_flag:
  "node_map_inv s \<Longrightarrow> node_map_inv (s\<lparr>mgr := (mgr s)\<lparr>isClusterMode := True\<rparr>\<rparr>)"
  by (simp add: node_map_inv_def)

lemma node_map_inv_Discover:
  assumes "node_map_inv s"
  shows "node_map_inv (snd (snd (DiscoverAndAddClusterNodes s primaryEndpoint startPort env)))"
  using assms node_map_inv_addClusterProxies[OF node_map_inv_cluster_flag[OF assms]]
  by (auto simp: DiscoverAndAddClusterNodes_def Let_def case_prod_beta
      split: option.splits sum.splits)

lemma ProxyShutdown_fields:
  "Proxy.remoteAddr (ProxyShutdown p) = Proxy.remoteAddr p"
  "Proxy.localAddr (ProxyShutdown p) = Proxy.localAddr p"
  "listener (ProxyShutdown p) = listener p"
  by (simp_all add: ProxyShutdown_def)

lemma entriesOf_Shutdown: "entriesOf (map ProxyShutdown ps) = entriesOf ps"
  by (simp add: entriesOf_def comp_def ProxyShutdown_fields)

lemma node_map_inv_Shutdown: "node_map_inv s \<Longrightarrow> node_map_inv (Shutdown s)"
  by (simp add: node_map_inv_def Shutdown_def entriesOf_Shutdown list_all_iff ProxyShutdown_fields)

lemma reachable_node_map_inv: "reachable s \<Longrightarrow> node_map_inv s"
proof (induction rule: reachable.induct)
  case (reachable_new cfg)
  show ?case by (simp add: node_map_inv_def NewManager_def entriesOf_def)
next
  case (reachable_tls s caCert skipVerify pemOK)
  then show ?case by (simp add: node_map_inv_def SetTLSConfig_def)
next
  case (reachable_password s password)
  then show ?case by (simp add: node_map_inv_def SetAuthPassword_def)
next
  case (reachable_mode s mode)
  then show ?case by (simp add: node_map_inv_def SetAuthorizationMode_def)
next
  case (reachable_add s ep localPort providerOK bindOK)
  then show ?case by (simp add: node_map_inv_AddProxy)
next
  case (reachable_discover s primaryEndpoint startPort env)
  then show ?case by (simp add: node_map_inv_Discover)
next
  case (reachable_shutdown s)
  then show ?case by (simp add: node_map_inv_Shutdown)
qed

lemma scenarioDuplicate_eq:
  "scenarioDuplicate =
     \<lparr>mgr = \<lparr>config = scenarioConfig,
              proxies = [\<lparr>localAddr = ''127.0.0.1:6379'', remoteAddr = ''10.0.0.1:6379'',
                          endpoint = scenarioPrimary, listener = True, config = scenarioConfig,
                          tokenSource = None, authPassword = [], tlsConfig = None,
                          isClusterMode = False, nodeMap = 0, shutdown = False\<rparr>,
                         \<lparr>localAddr = ''127.0.0.1:6380'', remoteAddr = ''10.0.0.1:6379'',
                          endpoint = scenarioPrimary, listener = True, config = scenarioConfig,
                          tokenSource = None, authPassword = [], tlsConfig = None,
                          isClusterMode = False, nodeMap = 0, shutdown = False\<rparr>],
              tokenSource = None, authPassword = [], authorizationMode = [], tlsConfig = None,
              nodeMap = 0, isClusterMode = False\<rparr>,
      maps = (\<lambda>r. Map.empty)(0 := [''10.0.0.1:6379'' \<mapsto> ''127.0.0.1:6380''])\<rparr>"
  by (simp add: scenarioDuplicate_def scenarioBeforeDiscovery_eq AddProxy_def Start_def Let_def
      scenarioConfig_def scenarioPrimary_def Itoa_6379 Itoa_6380)

lemma reachable_scenarioBeforeDiscovery: "reachable scenarioBeforeDiscovery"
  unfolding scenarioBeforeDiscovery_def by (intro reachable_add reachable_new)

lemma reachable_scenarioAfterDiscovery: "reachable scenarioAfterDiscovery"
  unfolding scenarioAfterDiscovery_def
  by (intro reachable_discover reachable_scenarioBeforeDiscovery)

lemma reachable_scenarioDuplicate: "reachable scenarioDuplicate"
  unfolding scenarioDuplicate_def by (intro reachable_add reachable_scenarioBeforeDiscovery)


section \<open>The claims\<close>

text \<open>
  C3. Round trip: for every value \<open>v\<close> of the RESP grammar (all five types, a null bulk
  string, a null array, nested arrays), parsing the serialization of \<open>v\<close> succeeds,
  consumes all of it, and serializing the parsed value gives the same bytes again.
\<close>

theorem Serialize_ReadValue_roundtrip:
  assumes "constructible v"
  shows "\<exists>v'. ReadValue (Serialize v) = Inr (v', []) \<and> Serialize v' = Serialize v"
proof -
  from assms have "ReadValue (Serialize v @ []) = Inr (parsed v, [])"
    by (rule ReadValue_Serialize)
  then show ?thesis
    by (auto simp: Serialize_parsed)
qed

theorem Serialize_ReadValue_roundtrip_witness:
  "constructible
     (RESPValue ArrayT [] 0
        [RESPValue SimpleString ''OK'' 0 [] False,
         RESPValue Error ''ERR x'' 0 [] False,
         RESPValue Integer [] (- 12) [] False,
         RESPValue BulkString ''foo'' 0 [] False,
         RESPValue BulkString [] 0 [] True,
         RESPValue ArrayT [] 0 [] True,
         RESPValue ArrayT [] 0 [RESPValue BulkString [CR, LF] 0 [] False] False] False)
   \<and> (\<exists>v'. ReadValue (Serialize
        (RESPValue ArrayT [] 0
        [RESPValue SimpleString ''OK'' 0 [] False,
         RESPValue Error ''ERR x'' 0 [] False,
         RESPValue Integer [] (- 12) [] False,
         RESPValue BulkString ''foo'' 0 [] False,
         RESPValue BulkString [] 0 [] True,
         RESPValue ArrayT [] 0 [] True,
         RESPValue ArrayT [] 0 [RESPValue BulkString [CR, LF] 0 [] False] False] False)) = Inr (v', [])
      \<and> Serialize v' = Serialize (RESPValue ArrayT [] 0
        [RESPValue SimpleString ''OK'' 0 [] False,
         RESPValue Error ''ERR x'' 0 [] False,
         RESPValue Integer [] (- 12) [] False,
         RESPValue BulkString ''foo'' 0 [] False,
         RESPValue BulkString [] 0 [] True,
         RESPValue ArrayT [] 0 [] True,
         RESPValue ArrayT [] 0 [RESPValue BulkString [CR, LF] 0 [] False] False] False))"
proof -
  have c: "constructible
     (RESPValue ArrayT [] 0
        [RESPValue SimpleString ''OK'' 0 [] False,
         RESPValue Error ''ERR x'' 0 [] False,
         RESPValue Integer [] (- 12) [] False,
         RESPValue BulkString ''foo'' 0 [] False,
         RESPValue BulkString [] 0 [] True,
         RESPValue ArrayT [] 0 [] True,
         RESPValue ArrayT [] 0 [RESPValue BulkString [CR, LF] 0 [] False] False] False)"
    by (simp add: maxAlloc_def sizeofRESPValue_def)
  show ?thesis
    using c Serialize_ReadValue_roundtrip[OF c] by blast
qed



text \<open>
  C5. \<open>IsRedirectError v\<close> holds exactly when \<open>v\<close> has the type Error and its payload
  starts with the six bytes \<open>MOVED \<close> or the four bytes \<open>ASK \<close>. It is false for an Error
  with payload \<open>ERR something\<close>, for the lower-case keyword, for the keyword without the
  space, and for a value of another type with a redirect payload.
\<close>

theorem IsRedirectError_iff:
  "(IsRedirectError v \<longleftrightarrow>
      Type v = Error \<and> ((\<exists>rest. Str v = ''MOVED '' @ rest) \<or> (\<exists>rest. Str v = ''ASK '' @ rest)))
   \<and> \<not> IsRedirectError (RESPValue Error ''ERR something'' i arr null)
   \<and> \<not> IsRedirectError (RESPValue Error ''moved 1 h:1'' i arr null)
   \<and> \<not> IsRedirectError (RESPValue Error ''MOVED'' i arr null)
   \<and> \<not> IsRedirectError (RESPValue SimpleString ''MOVED 1 h:1'' i arr null)"
  by (simp add: IsRedirectError_def HasPrefix_iff)

text \<open>
  C6. A miss leaves the value alone: when the payload does not split into exactly three
  fields, or its third field is no key of the node map, \<open>RewriteRedirectError\<close> returns
  false and the value (its payload included) is what it was before the call. This holds
  for every value, so for every Error value, and for every map, the empty one included.
\<close>

theorem RewriteRedirectError_miss:
  assumes "length (Fields (Str v)) \<noteq> 3 \<or> Fields (Str v) ! 2 \<notin> dom nmap"
  shows "RewriteRedirectError v nmap = (False, v)"
  using assms by (auto simp: RewriteRedirectError_def Let_def split: option.splits)

theorem RewriteRedirectError_miss_witness:
  "Fields (Str (RESPValue Error ''MOVED 3999 10.128.0.5:6379'' 0 [] False)) ! 2
      \<notin> dom (Map.empty :: string \<rightharpoonup> string)
   \<and> RewriteRedirectError (RESPValue Error ''MOVED 3999 10.128.0.5:6379'' 0 [] False) Map.empty
       = (False, RESPValue Error ''MOVED 3999 10.128.0.5:6379'' 0 [] False)
   \<and> length (Fields (Str (RESPValue Error ''MOVED 3999'' 0 [] False))) \<noteq> 3
   \<and> RewriteRedirectError (RESPValue Error ''MOVED 3999'' 0 [] False)
         [''10.128.0.5:6379'' \<mapsto> ''127.0.0.1:6381'']
       = (False, RESPValue Error ''MOVED 3999'' 0 [] False)"
proof -
  have l: "length (Fields (Str (RESPValue Error ''MOVED 3999'' 0 [] False))) \<noteq> 3"
    by (simp add: Fields_def spaceWidth_def asciiSpace_def unicodeSpaces_def)
  show ?thesis
    using l
      RewriteRedirectError_miss[of "RESPValue Error ''MOVED 3999 10.128.0.5:6379'' 0 [] False" Map.empty]
      RewriteRedirectError_miss[of "RESPValue Error ''MOVED 3999'' 0 [] False"
        "[''10.128.0.5:6379'' \<mapsto> ''127.0.0.1:6381'']"]
    by simp
qed

text \<open>
  C7. \<open>RewriteRedirectError\<close> returns true exactly when the value is a redirect error whose
  payload has three fields, the third a key of the node map; the value after the call
  then has the payload keyword, space, slot, space, local address, with keyword and slot
  as they were, and nothing else changed. For the payload \<open>MOVED 3999 10.128.0.5:6379\<close>
  and the map from \<open>10.128.0.5:6379\<close> to \<open>127.0.0.1:6381\<close> the payload becomes
  \<open>MOVED 3999 127.0.0.1:6381\<close>.
\<close>

theorem RewriteRedirectError_success:
  "(RewriteRedirectError v nmap = (True, v') \<longleftrightarrow>
      IsRedirectError v \<and>
      (\<exists>keyword slot target localAddr.
         Fields (Str v) = [keyword, slot, target] \<and> nmap target = Some localAddr \<and>
         v' = RESPValue (Type v) (keyword @ '' '' @ slot @ '' '' @ localAddr)
                (IntVal v) (Array v) (Null v)))
   \<and> RewriteRedirectError (RESPValue Error ''MOVED 3999 10.128.0.5:6379'' 0 [] False)
         [''10.128.0.5:6379'' \<mapsto> ''127.0.0.1:6381'']
       = (True, RESPValue Error ''MOVED 3999 127.0.0.1:6381'' 0 [] False)"
proof (intro conjI iffI)
  assume a: "RewriteRedirectError v nmap = (True, v')"
  then show "IsRedirectError v"
    by (auto simp: RewriteRedirectError_def split: if_splits)
  from a have len: "length (Fields (Str v)) = 3"
    by (auto simp: RewriteRedirectError_def Let_def split: if_splits)
  then obtain keyword slot target where f: "Fields (Str v) = [keyword, slot, target]"
    by (auto simp: length_Suc_conv numeral_3_eq_3)
  with a show "\<exists>keyword slot target localAddr.
         Fields (Str v) = [keyword, slot, target] \<and> nmap target = Some localAddr \<and>
         v' = RESPValue (Type v) (keyword @ '' '' @ slot @ '' '' @ localAddr)
                (IntVal v) (Array v) (Null v)"
    by (auto simp: RewriteRedirectError_def set_Str_def split: if_splits option.splits)
next
  assume "IsRedirectError v \<and>
      (\<exists>keyword slot target localAddr.
         Fields (Str v) = [keyword, slot, target] \<and> nmap target = Some localAddr \<and>
         v' = RESPValue (Type v) (keyword @ '' '' @ slot @ '' '' @ localAddr)
                (IntVal v) (Array v) (Null v))"
  then show "RewriteRedirectError v nmap = (True, v')"
    by (auto simp: RewriteRedirectError_def set_Str_def)
next
  show "RewriteRedirectError (RESPValue Error ''MOVED 3999 10.128.0.5:6379'' 0 [] False)
         [''10.128.0.5:6379'' \<mapsto> ''127.0.0.1:6381'']
       = (True, RESPValue Error ''MOVED 3999 127.0.0.1:6381'' 0 [] False)"
    by (simp add: RewriteRedirectError_def IsRedirectError_def HasPrefix_def Fields_moved_example
        set_Str_def)
qed




text \<open>
  C8. Every line of the node table that has at least 8 fields gives a node of the result
  whose address is the address field cut before its first \<open>@\<close> and its first comma (so
  the bus port and the host name are gone) and whose role is \<open>master\<close> exactly when the
  flags field contains \<open>master\<close>, and \<open>slave\<close> otherwise. The example line parses
  to the address \<open>127.0.0.1:30004\<close> and the role \<open>slave\<close>.
\<close>

theorem parseClusterNodes_address_role:
  assumes "line \<in> set (Split (TrimSpace output) LF)"
    and "8 \<le> length (Fields (TrimSpace line))"
  shows "(\<exists>node. node \<in> set (parseClusterNodes output)
            \<and> Address node
                = takeWhile (\<lambda>c. c \<noteq> CHR ''@'' \<and> c \<noteq> CHR '','') (Fields (TrimSpace line) ! 1)
            \<and> CHR ''@'' \<notin> set (Address node) \<and> CHR '','' \<notin> set (Address node)
            \<and> (Role node = ''master'' \<longleftrightarrow> sublist ''master'' (Fields (TrimSpace line) ! 2))
            \<and> (Role node = ''slave'' \<longleftrightarrow> \<not> sublist ''master'' (Fields (TrimSpace line) ! 2)))
       \<and> parseClusterNodes
            ''07c3...91 127.0.0.1:30004@31004 slave e7d1... 0 1426238317239 4 connected''
          = [\<lparr>ID = ''07c3...91'', Address = ''127.0.0.1:30004'', Port = 30004,
               Flags = ''slave'', Role = ''slave''\<rparr>]"
proof
  from parseNodeLine_wellformed[OF assms(2)] obtain node where
    n: "parseNodeLine line = Some node"
    and a: "Address node
              = takeWhile (\<lambda>c. c \<noteq> CHR ''@'' \<and> c \<noteq> CHR '','') (Fields (TrimSpace line) ! 1)"
    and r: "Role node = (if sublist ''master'' (Fields (TrimSpace line) ! 2) then ''master'' else ''slave'')"
    by blast
  from n assms(1) have m: "node \<in> set (parseClusterNodes output)"
    by (force simp: parseClusterNodes_def List.map_filter_def)
  have na: "CHR ''@'' \<notin> set (Address node)" and nc: "CHR '','' \<notin> set (Address node)"
    unfolding a by (auto dest: set_takeWhileD)
  from r have rm: "Role node = ''master'' \<longleftrightarrow> sublist ''master'' (Fields (TrimSpace line) ! 2)"
    by simp
  from r have rs: "Role node = ''slave'' \<longleftrightarrow> \<not> sublist ''master'' (Fields (TrimSpace line) ! 2)"
    by simp
  from m a na nc rm rs
  show "\<exists>node. node \<in> set (parseClusterNodes output)
            \<and> Address node
                = takeWhile (\<lambda>c. c \<noteq> CHR ''@'' \<and> c \<noteq> CHR '','') (Fields (TrimSpace line) ! 1)
            \<and> CHR ''@'' \<notin> set (Address node) \<and> CHR '','' \<notin> set (Address node)
            \<and> (Role node = ''master'' \<longleftrightarrow> sublist ''master'' (Fields (TrimSpace line) ! 2))
            \<and> (Role node = ''slave'' \<longleftrightarrow> \<not> sublist ''master'' (Fields (TrimSpace line) ! 2))"
    by blast
next
  show "parseClusterNodes
            ''07c3...91 127.0.0.1:30004@31004 slave e7d1... 0 1426238317239 4 connected''
          = [\<lparr>ID = ''07c3...91'', Address = ''127.0.0.1:30004'', Port = 30004,
               Flags = ''slave'', Role = ''slave''\<rparr>]"
    by (simp add: parseClusterNodes_def example_line_trim example_line_split List.map_filter_simps
        parseNodeLine_def example_line_fields Let_def scanInt_def ParseInt_def isDigit_def
        HasPrefix_def strip_at)
qed

theorem parseClusterNodes_address_role_witness:
  "''07c3...91 127.0.0.1:30004@31004 slave e7d1... 0 1426238317239 4 connected''
     \<in> set (Split (TrimSpace
         ''07c3...91 127.0.0.1:30004@31004 slave e7d1... 0 1426238317239 4 connected'') LF)
   \<and> 8 \<le> length (Fields (TrimSpace
         ''07c3...91 127.0.0.1:30004@31004 slave e7d1... 0 1426238317239 4 connected''))
   \<and> (\<exists>node. node \<in> set (parseClusterNodes
         ''07c3...91 127.0.0.1:30004@31004 slave e7d1... 0 1426238317239 4 connected'')
        \<and> Address node = ''127.0.0.1:30004'' \<and> Role node = ''slave'')"
proof -
  let ?l = "''07c3...91 127.0.0.1:30004@31004 slave e7d1... 0 1426238317239 4 connected''"
  have m: "?l \<in> set (Split (TrimSpace ?l) LF)"
    by (simp only: example_line_trim example_line_split) simp
  have f: "8 \<le> length (Fields (TrimSpace ?l))"
    by (simp only: example_line_trim example_line_fields) simp
  have nm: "\<not> sublist ''master'' ''slave''"
    by (simp add: sublist_Cons_right)
  from parseClusterNodes_address_role[OF m f, THEN conjunct1] nm
  have "\<exists>node. node \<in> set (parseClusterNodes ?l)
        \<and> Address node = ''127.0.0.1:30004'' \<and> Role node = ''slave''"
    by (simp add: example_line_trim example_line_fields) blast
  with m f show ?thesis by blast
qed

text \<open>
  C2, as the claim states it, fails: a reply that starts with \<open>+OK\r\n\<close> and goes on (the
  remote's next bytes arrived within the same read) is accepted, by the password and by
  the IAM authentication, although it is not the 5-byte sequence.
\<close>

theorem auth_accepts_reply_with_trailing_bytes:
  "snd (authenticatePassword
          \<lparr>writeFails = False, readResult = Some (''+OK'' @ [CR, LF] @ ''-ERR late'' @ [CR, LF])\<rparr>
          ''secret'') = None
   \<and> snd (authenticateIAM
          \<lparr>writeFails = False, readResult = Some (''+OK'' @ [CR, LF] @ ''-ERR late'' @ [CR, LF])\<rparr>
          (Some ''token'')) = None
   \<and> ''+OK'' @ [CR, LF] @ ''-ERR late'' @ [CR, LF] \<noteq> ''+OK'' @ [CR, LF]"
  by (simp add: authenticatePassword_def authenticateIAM_def)

text \<open>
  C2, amended. On a connection that was dialled, on which the AUTH command could be
  written and the one read returned bytes, password and IAM authentication (the token
  obtained) succeed exactly when the bytes read, at most the first 1024 that arrived,
  start with \<open>+OK\r\n\<close>; every other reply is the authentication failure that
  carries the bytes read, and the pipeline ends with it instead of relaying.
\<close>

theorem auth_succeeds_iff_reply_starts_with_OK:
  assumes "dialOK env" and "\<not> writeFails (authConn env)"
    and "readResult (authConn env) = Some arrived"
    and "tokenResult env = Some token"
    and "Proxy.authPassword p \<noteq> [] \<or> Proxy.tokenSource p \<noteq> None"
  shows "snd (authenticatePassword (authConn env) password)
           = (if prefix (''+OK'' @ [CR, LF]) (take 1024 arrived) then None
              else Some (AuthenticationFailed (take 1024 arrived)))
       \<and> snd (authenticateIAM (authConn env) (tokenResult env))
           = (if prefix (''+OK'' @ [CR, LF]) (take 1024 arrived) then None
              else Some (AuthenticationFailed (take 1024 arrived)))
       \<and> handleConnection p store env
           = (if prefix (''+OK'' @ [CR, LF]) (take 1024 arrived)
              then Relayed (if Proxy.isClusterMode p
                            then handleClusterConnection p store (serverBytes env)
                            else handleSimpleConnection (serverBytes env))
              else AuthFailed (AuthenticationFailed (take 1024 arrived)))"
proof -
  have pw: "snd (authenticatePassword (authConn env) pw')
           = (if prefix (''+OK'' @ [CR, LF]) (take 1024 arrived) then None
              else Some (AuthenticationFailed (take 1024 arrived)))" for pw'
    using assms(2,3) auth_check_prefix[of "take 1024 arrived"]
    by (simp add: authenticatePassword_def Let_def)
  have iam: "snd (authenticateIAM (authConn env) (tokenResult env))
           = (if prefix (''+OK'' @ [CR, LF]) (take 1024 arrived) then None
              else Some (AuthenticationFailed (take 1024 arrived)))"
    using assms(2,3,4) auth_check_prefix[of "take 1024 arrived"]
    by (simp add: authenticateIAM_def Let_def)
  have hc: "handleConnection p store env
           = (if prefix (''+OK'' @ [CR, LF]) (take 1024 arrived)
              then Relayed (if Proxy.isClusterMode p
                            then handleClusterConnection p store (serverBytes env)
                            else handleSimpleConnection (serverBytes env))
              else AuthFailed (AuthenticationFailed (take 1024 arrived)))"
    using assms(1,5) pw[of "Proxy.authPassword p"] iam
    by (auto simp: handleConnection_def Let_def)
  from pw iam hc show ?thesis by blast
qed

theorem auth_succeeds_iff_reply_starts_with_OK_witness:
  "dialOK (authScenario (''+OK'' @ [CR, LF] @ ''-ERR late'' @ [CR, LF]))
   \<and> \<not> writeFails (authConn (authScenario (''+OK'' @ [CR, LF] @ ''-ERR late'' @ [CR, LF])))
   \<and> readResult (authConn (authScenario (''+OK'' @ [CR, LF] @ ''-ERR late'' @ [CR, LF])))
       = Some (''+OK'' @ [CR, LF] @ ''-ERR late'' @ [CR, LF])
   \<and> tokenResult (authScenario (''+OK'' @ [CR, LF] @ ''-ERR late'' @ [CR, LF])) = Some ''token''
   \<and> Proxy.authPassword passwordProxy \<noteq> []
   \<and> snd (authenticatePassword
            (authConn (authScenario (''+OK'' @ [CR, LF] @ ''-ERR late'' @ [CR, LF]))) ''secret'') = None
   \<and> handleConnection passwordProxy (\<lambda>r. Map.empty)
         (authScenario (''+OK'' @ [CR, LF] @ ''-ERR late'' @ [CR, LF]))
       = Relayed (''+PONG'' @ [CR, LF])
   \<and> readResult (authConn (authScenario (''-ERR invalid password'' @ [CR, LF])))
       = Some (''-ERR invalid password'' @ [CR, LF])
   \<and> handleConnection passwordProxy (\<lambda>r. Map.empty)
         (authScenario (''-ERR invalid password'' @ [CR, LF]))
       = AuthFailed (AuthenticationFailed (''-ERR invalid password'' @ [CR, LF]))"
proof -
  let ?ok = "''+OK'' @ [CR, LF] @ ''-ERR late'' @ [CR, LF]"
  let ?bad = "''-ERR invalid password'' @ [CR, LF]"
  have h: "dialOK (authScenario r)" "\<not> writeFails (authConn (authScenario r))"
    "readResult (authConn (authScenario r)) = Some r"
    "tokenResult (authScenario r) = Some ''token''" for r
    by (simp_all add: authScenario_def)
  have p: "Proxy.authPassword passwordProxy \<noteq> []"
    by (simp add: passwordProxy_def)
  then have d: "Proxy.authPassword passwordProxy \<noteq> [] \<or> Proxy.tokenSource passwordProxy \<noteq> None"
    by simp
  note ok = auth_succeeds_iff_reply_starts_with_OK[where env = "authScenario ?ok"
      and arrived = ?ok and token = "''token''" and p = passwordProxy and password = "''secret''"
      and store = "\<lambda>r. Map.empty", OF h[of ?ok] d]
  note bad = auth_succeeds_iff_reply_starts_with_OK[where env = "authScenario ?bad"
      and arrived = ?bad and token = "''token''" and p = passwordProxy and password = "''secret''"
      and store = "\<lambda>r. Map.empty", OF h[of ?bad] d]
  have a: "snd (authenticatePassword (authConn (authScenario ?ok)) ''secret'') = None"
    using ok[THEN conjunct1] by simp
  have r1: "handleConnection passwordProxy (\<lambda>r. Map.empty) (authScenario ?ok)
              = Relayed (''+PONG'' @ [CR, LF])"
    using ok[THEN conjunct2, THEN conjunct2]
    by (simp add: passwordProxy_def handleSimpleConnection_def authScenario_def)
  have r2: "handleConnection passwordProxy (\<lambda>r. Map.empty) (authScenario ?bad)
              = AuthFailed (AuthenticationFailed ?bad)"
    using bad[THEN conjunct2, THEN conjunct2] by simp
  from h[of ?ok] h(3)[of ?bad] p a r1 r2 show ?thesis by blast
qed

text \<open>
  C9, as the claim states it, fails when two instances have the same remote endpoint:
  the manager owns two listening instances for \<open>10.0.0.1:6379\<close>, on the ports 6379 and
  6380, and the map has the one entry to \<open>127.0.0.1:6380\<close>; the entry of the first
  instance is gone.
\<close>

theorem duplicate_remote_overwrites_entry:
  "reachable scenarioDuplicate
   \<and> length (proxies (mgr scenarioDuplicate)) = 2
   \<and> listener (proxies (mgr scenarioDuplicate) ! 0)
   \<and> Proxy.remoteAddr (proxies (mgr scenarioDuplicate) ! 0) = ''10.0.0.1:6379''
   \<and> Proxy.localAddr (proxies (mgr scenarioDuplicate) ! 0) = ''127.0.0.1:6379''
   \<and> maps scenarioDuplicate (nodeMap (mgr scenarioDuplicate)) ''10.0.0.1:6379''
       = Some ''127.0.0.1:6380''
   \<and> maps scenarioDuplicate (nodeMap (mgr scenarioDuplicate))
         (Proxy.remoteAddr (proxies (mgr scenarioDuplicate) ! 0))
       \<noteq> Some (Proxy.localAddr (proxies (mgr scenarioDuplicate) ! 0))"
  using reachable_scenarioDuplicate by (simp add: scenarioDuplicate_eq)

text \<open>
  C9, amended. In every reachable state of the manager: the keys of the node map are
  exactly the remote addresses of the owned instances; every entry is the remote and
  local address of an owned instance with a bound listener; every owned instance has a
  bound listener, and its remote address is mapped to the local address of the instance
  added last for that remote address, so that each instance has its own entry when the
  remote addresses are pairwise distinct. \<open>AddProxy\<close> with a failing bind returns an
  error and adds neither an entry nor an instance; when it returns no error the bind has
  succeeded, and it has added one instance and that instance's entry.
\<close>

theorem node_map_entries_of_listening_instances:
  assumes "reachable s"
  shows "dom (maps s (nodeMap (mgr s))) = Proxy.remoteAddr ` set (proxies (mgr s))
       \<and> (\<forall>remote local. maps s (nodeMap (mgr s)) remote = Some local \<longrightarrow>
            (\<exists>p. p \<in> set (proxies (mgr s)) \<and> Proxy.remoteAddr p = remote
                 \<and> Proxy.localAddr p = local \<and> listener p))
       \<and> (\<forall>p. p \<in> set (proxies (mgr s)) \<longrightarrow>
            listener p
            \<and> maps s (nodeMap (mgr s)) (Proxy.remoteAddr p)
                = Some (Proxy.localAddr
                    (last (filter (\<lambda>q. Proxy.remoteAddr q = Proxy.remoteAddr p) (proxies (mgr s))))))
       \<and> (distinct (map Proxy.remoteAddr (proxies (mgr s))) \<longrightarrow>
            (\<forall>p. p \<in> set (proxies (mgr s)) \<longrightarrow>
               maps s (nodeMap (mgr s)) (Proxy.remoteAddr p) = Some (Proxy.localAddr p)))
       \<and> (fst (AddProxy s ep localPort providerOK False) \<noteq> None
            \<and> proxies (mgr (snd (AddProxy s ep localPort providerOK False))) = proxies (mgr s)
            \<and> maps (snd (AddProxy s ep localPort providerOK False)) = maps s)
       \<and> (fst (AddProxy s ep localPort providerOK bindOK) = None \<longrightarrow>
            bindOK
            \<and> (\<exists>p. proxies (mgr (snd (AddProxy s ep localPort providerOK bindOK)))
                      = proxies (mgr s) @ [p]
                  \<and> listener p
                  \<and> Proxy.remoteAddr p = Host ep @ '':'' @ Itoa (EndpointPort ep)
                  \<and> Proxy.localAddr p = LocalAddr (config (mgr s)) @ '':'' @ Itoa localPort
                  \<and> maps (snd (AddProxy s ep localPort providerOK bindOK)) (nodeMap (mgr s))
                      = (maps s (nodeMap (mgr s)))(Proxy.remoteAddr p \<mapsto> Proxy.localAddr p)))"
proof -
  from assms have inv: "node_map_inv s"
    by (rule reachable_node_map_inv)
  then have m: "maps s (nodeMap (mgr s)) = entriesOf (proxies (mgr s))"
    and l: "\<And>p. p \<in> set (proxies (mgr s)) \<Longrightarrow> listener p"
    by (auto simp: node_map_inv_def list_all_iff)
  have c1: "dom (maps s (nodeMap (mgr s))) = Proxy.remoteAddr ` set (proxies (mgr s))"
    by (simp add: m entriesOf_dom)
  have c2: "\<forall>remote local. maps s (nodeMap (mgr s)) remote = Some local \<longrightarrow>
            (\<exists>p. p \<in> set (proxies (mgr s)) \<and> Proxy.remoteAddr p = remote
                 \<and> Proxy.localAddr p = local \<and> listener p)"
    using l by (auto simp: m dest!: entriesOf_Some)
  have c3: "\<forall>p. p \<in> set (proxies (mgr s)) \<longrightarrow>
            listener p
            \<and> maps s (nodeMap (mgr s)) (Proxy.remoteAddr p)
                = Some (Proxy.localAddr
                    (last (filter (\<lambda>q. Proxy.remoteAddr q = Proxy.remoteAddr p) (proxies (mgr s)))))"
    using l by (auto simp: m entriesOf_last)
  have c4: "distinct (map Proxy.remoteAddr (proxies (mgr s))) \<longrightarrow>
            (\<forall>p. p \<in> set (proxies (mgr s)) \<longrightarrow>
               maps s (nodeMap (mgr s)) (Proxy.remoteAddr p) = Some (Proxy.localAddr p))"
    by (auto simp: m entriesOf_distinct)
  have c5: "fst (AddProxy s ep localPort providerOK False) \<noteq> None
            \<and> proxies (mgr (snd (AddProxy s ep localPort providerOK False))) = proxies (mgr s)
            \<and> maps (snd (AddProxy s ep localPort providerOK False)) = maps s"
    using AddProxy_bind_failure[of s ep localPort providerOK] by blast
  have c6: "fst (AddProxy s ep localPort providerOK bindOK) = None \<longrightarrow>
            bindOK
            \<and> (\<exists>p. proxies (mgr (snd (AddProxy s ep localPort providerOK bindOK)))
                      = proxies (mgr s) @ [p]
                  \<and> listener p
                  \<and> Proxy.remoteAddr p = Host ep @ '':'' @ Itoa (EndpointPort ep)
                  \<and> Proxy.localAddr p = LocalAddr (config (mgr s)) @ '':'' @ Itoa localPort
                  \<and> maps (snd (AddProxy s ep localPort providerOK bindOK)) (nodeMap (mgr s))
                      = (maps s (nodeMap (mgr s)))(Proxy.remoteAddr p \<mapsto> Proxy.localAddr p))"
    using AddProxy_result[of s ep localPort providerOK bindOK] by auto
  from c1 c2 c3 c4 c5 c6 show ?thesis by blast
qed

theorem node_map_entries_of_listening_instances_witness:
  "reachable scenarioAfterDiscovery
   \<and> distinct (map Proxy.remoteAddr (proxies (mgr scenarioAfterDiscovery)))
   \<and> dom (maps scenarioAfterDiscovery (nodeMap (mgr scenarioAfterDiscovery)))
       = Proxy.remoteAddr ` set (proxies (mgr scenarioAfterDiscovery))
   \<and> maps scenarioAfterDiscovery (nodeMap (mgr scenarioAfterDiscovery)) ''10.0.0.1:6379''
       = Some ''127.0.0.1:6379''
   \<and> maps scenarioAfterDiscovery (nodeMap (mgr scenarioAfterDiscovery)) ''10.0.0.2:6379''
       = Some ''127.0.0.1:6380''
   \<and> list_all listener (proxies (mgr scenarioAfterDiscovery))
   \<and> fst (AddProxy scenarioAfterDiscovery scenarioPrimary 6381 True True) = None
   \<and> fst (AddProxy scenarioAfterDiscovery scenarioPrimary 6381 True False) \<noteq> None
   \<and> maps (snd (AddProxy scenarioAfterDiscovery scenarioPrimary 6381 True False))
       = maps scenarioAfterDiscovery"
proof -
  note r = reachable_scenarioAfterDiscovery
  note t = node_map_entries_of_listening_instances[OF r]
  have d: "distinct (map Proxy.remoteAddr (proxies (mgr scenarioAfterDiscovery)))"
    by (simp add: scenarioAfterDiscovery_eq)
  have c1: "dom (maps scenarioAfterDiscovery (nodeMap (mgr scenarioAfterDiscovery)))
       = Proxy.remoteAddr ` set (proxies (mgr scenarioAfterDiscovery))"
    using t[THEN conjunct1] .
  have c4: "\<forall>p. p \<in> set (proxies (mgr scenarioAfterDiscovery)) \<longrightarrow>
               maps scenarioAfterDiscovery (nodeMap (mgr scenarioAfterDiscovery)) (Proxy.remoteAddr p)
                 = Some (Proxy.localAddr p)"
    using t[THEN conjunct2, THEN conjunct2, THEN conjunct2, THEN conjunct1] d by blast
  have e1: "maps scenarioAfterDiscovery (nodeMap (mgr scenarioAfterDiscovery)) ''10.0.0.1:6379''
       = Some ''127.0.0.1:6379''"
    using c4[rule_format, of "proxies (mgr scenarioAfterDiscovery) ! 0"]
    by (simp add: scenarioAfterDiscovery_eq)
  have e2: "maps scenarioAfterDiscovery (nodeMap (mgr scenarioAfterDiscovery)) ''10.0.0.2:6379''
       = Some ''127.0.0.1:6380''"
    using c4[rule_format, of "proxies (mgr scenarioAfterDiscovery) ! 1"]
    by (simp add: scenarioAfterDiscovery_eq)
  have la: "list_all listener (proxies (mgr scenarioAfterDiscovery))"
    using t[THEN conjunct2, THEN conjunct2, THEN conjunct1] by (simp add: list_all_iff)
  have ok: "fst (AddProxy scenarioAfterDiscovery scenarioPrimary 6381 True True) = None"
    by (simp add: AddProxy_def Start_def Let_def scenarioAfterDiscovery_eq)
  have c5: "fst (AddProxy scenarioAfterDiscovery scenarioPrimary 6381 True False) \<noteq> None
      \<and> maps (snd (AddProxy scenarioAfterDiscovery scenarioPrimary 6381 True False))
          = maps scenarioAfterDiscovery"
    using t[THEN conjunct2, THEN conjunct2, THEN conjunct2, THEN conjunct2, THEN conjunct1,
        of scenarioPrimary 6381 True]
    by blast
  from r d c1 e1 e2 la ok c5 show ?thesis by blast
qed

text \<open>
  C1. After a discovery that added a peer, the instance that was added before discovery
  still relays without looking at the replies: \<open>AddProxy\<close> gave it the manager's
  \<open>isClusterMode\<close> of that time, false, and discovery sets only the manager's field. In
  the scenario, discovery succeeds and adds one peer; the node map, which both instances
  share, maps \<open>10.0.0.2:6379\<close> to \<open>127.0.0.1:6380\<close>; the reply
  \<open>-MOVED 3999 10.0.0.2:6379\r\n\<close> reaches a client of the primary's instance
  unchanged, and a client of the peer's instance rewritten.
\<close>

theorem primary_instance_relays_redirect_unchanged:
  "fst (DiscoverAndAddClusterNodes scenarioBeforeDiscovery scenarioPrimary 6380 scenarioDiscoverEnv) = 1
   \<and> fst (snd (DiscoverAndAddClusterNodes scenarioBeforeDiscovery scenarioPrimary 6380
                  scenarioDiscoverEnv)) = None
   \<and> isClusterMode (mgr scenarioAfterDiscovery)
   \<and> length (proxies (mgr scenarioAfterDiscovery)) = 2
   \<and> Proxy.remoteAddr (proxies (mgr scenarioAfterDiscovery) ! 0) = ''10.0.0.1:6379''
   \<and> Proxy.remoteAddr (proxies (mgr scenarioAfterDiscovery) ! 1) = ''10.0.0.2:6379''
   \<and> Proxy.nodeMap (proxies (mgr scenarioAfterDiscovery) ! 0) = nodeMap (mgr scenarioAfterDiscovery)
   \<and> maps scenarioAfterDiscovery (nodeMap (mgr scenarioAfterDiscovery)) ''10.0.0.2:6379''
       = Some ''127.0.0.1:6380''
   \<and> \<not> Proxy.isClusterMode (proxies (mgr scenarioAfterDiscovery) ! 0)
   \<and> Proxy.isClusterMode (proxies (mgr scenarioAfterDiscovery) ! 1)
   \<and> handleConnection (proxies (mgr scenarioAfterDiscovery) ! 0) (maps scenarioAfterDiscovery)
         scenarioRedirect
       = Relayed (''-MOVED 3999 10.0.0.2:6379'' @ [CR, LF])
   \<and> handleConnection (proxies (mgr scenarioAfterDiscovery) ! 1) (maps scenarioAfterDiscovery)
         scenarioRedirect
       = Relayed (''-MOVED 3999 127.0.0.1:6380'' @ [CR, LF])"
  using scenario_discovery_result scenario_cluster_relay
  by (simp add: scenarioAfterDiscovery_eq handleConnection_def scenarioRedirect_def
      handleSimpleConnection_def handleClusterConnection_def)

end
